theory Spec2Isabelle
  imports Main
begin

section \<open>Data model\<close>

text \<open>
  The rows of the six tables of the first migration (\<open>noisy_dream.sql\<close>), as the
  \<open>Row\<close> types of \<open>supabase.ts\<close> declare them. Record fields carry a prefix for
  their table (\<open>d_\<close> documents, \<open>v_\<close> document_versions, \<open>c_\<close> comments,
  \<open>a_\<close> approvals, \<open>l_\<close> activity_logs, \<open>s_\<close> document_shares), since several
  tables have columns of the same name. A \<open>uuid\<close> is its text, a timestamp is a
  number, a \<open>string\<close> is the list of the code units that JavaScript counts, and
  \<open>version_number\<close> is an unbounded integer (the bound of the SQL type
  \<open>integer\<close> is not modelled).
\<close>

type_synonym uuid = string
type_synonym timestamptz = nat

datatype permission = View | Comment | Edit

datatype approval_status = Pending | Approved | Rejected

datatype json = JString string | JNumber int | JObject "(string \<times> json) list"

record document =
  d_id :: uuid
  d_title :: string
  d_description :: "string option"
  d_created_by :: uuid
  d_created_at :: timestamptz
  d_updated_at :: timestamptz
  d_is_public :: bool

record document_version =
  v_id :: uuid
  v_document_id :: uuid
  v_version_number :: int
  v_file_path :: string
  v_file_name :: string
  v_file_size :: nat
  v_mime_type :: string
  v_uploaded_by :: uuid
  v_created_at :: timestamptz
  v_notes :: "string option"

record comment =
  c_id :: uuid
  c_document_id :: uuid
  c_version_id :: "uuid option"
  c_content :: string
  c_created_by :: uuid
  c_created_at :: timestamptz
  c_updated_at :: timestamptz
  c_parent_id :: "uuid option"

record approval =
  a_id :: uuid
  a_document_id :: uuid
  a_version_id :: "uuid option"
  a_requested_by :: uuid
  a_assigned_to :: uuid
  a_status :: approval_status
  a_notes :: "string option"
  a_created_at :: timestamptz
  a_updated_at :: timestamptz

record activity_log =
  l_id :: uuid
  l_document_id :: uuid
  l_user_id :: uuid
  l_action :: string
  l_details :: "json option"
  l_created_at :: timestamptz

record document_share =
  s_id :: uuid
  s_document_id :: uuid
  s_shared_with :: uuid
  s_permission :: permission
  s_shared_by :: uuid
  s_created_at :: timestamptz

text \<open>The browser's \<open>File\<close>: the three properties the upload reads.\<close>

record File =
  f_name :: string
  f_size :: nat
  f_type :: string

text \<open>
  The backend: \<open>auth.users\<close> (the target of the user foreign keys), the six tables in
  insertion order, and the objects of the storage bucket \<open>documents\<close> by name.
\<close>

record db =
  users :: "uuid list"
  documents :: "document list"
  document_versions :: "document_version list"
  comments :: "comment list"
  approvals :: "approval list"
  activity_logs :: "activity_log list"
  document_shares :: "document_share list"
  storage_objects :: "(string \<times> File) list"

text \<open>
  The error object of a response: the PostgreSQL codes 42501 (a row-level-security
  policy rejects the row), 23505 (a unique constraint) and 23503 (a foreign key), the
  PostgREST code PGRST116 (\<open>.single()\<close> did not get exactly one row), and the
  failure of a request to the storage service or of a request as a whole.
\<close>

datatype error =
    RlsViolation
  | UniqueViolation
  | ForeignKeyViolation
  | NoRows
  | StorageError string
  | RequestFailed string

text \<open>
  An \<open>async\<close> function either rejects with a thrown \<open>Error\<close> or resolves with a
  value; the operations resolve with the pair \<open>{ data, error }\<close>.
\<close>

datatype 'a completion = Thrown string | Returned 'a

type_synonym 'a response = "'a option \<times> error option"

text \<open>
  What an operation takes from outside the database: the session
  (\<open>supabase.auth.getUser()\<close>), the token of \<open>uuidv4()\<close>, the two values of
  \<open>gen_random_uuid()\<close> (for the row the operation writes and for its activity entry),
  the clock, and the failure, if any, of the three requests whose failure the source
  handles itself: the query for the latest version (\<open>versions\<close> is then \<open>null\<close>),
  the storage upload (\<open>uploadError\<close>) and the insert of the activity entry (its result
  is not looked at). The other requests reach the database, and fail only as the
  policies and constraints decide. \<open>object_name\<close> is what the storage service takes for
  the name of the object when it is sent a path: the client library puts the path into
  the URL of the request as it is, so the name is what the URL and the service make of
  it (a \<open>#\<close> or \<open>?\<close> in the path ends it), and need not be the path.
\<close>

record env =
  auth_user :: "uuid option"
  uuid_v4 :: string
  gen_random_uuid :: uuid
  log_random_uuid :: uuid
  now :: timestamptz
  versions_query_error :: "error option"
  storage_upload_error :: "error option"
  log_insert_error :: "error option"
  object_name :: "string \<Rightarrow> string"

section \<open>Row-level security\<close>

text \<open>
  The policies in force after both migrations. Every policy is \<open>TO authenticated\<close>,
  so none applies to a request without a session: \<open>u\<close> is \<open>auth.uid()\<close>, \<open>None\<close>
  for the role \<open>anon\<close>. Several policies for one command of one table are joined by
  \<open>OR\<close>. A subquery on \<open>documents\<close> inside a policy sees only the documents the
  policies of \<open>documents\<close> let the same user read.

  The second migration (\<open>tight_villa.sql\<close>, "Fix RLS Policy Infinite Recursion") drops
  the policies of the first one that looked into \<open>document_shares\<close> and replaces them by
  the ones below; the policies of the first migration that it leaves in place are marked
  (1).
\<close>

definition users_can_read_own_documents :: "uuid option \<Rightarrow> document \<Rightarrow> bool" where
  "users_can_read_own_documents u d = (u = Some (d_created_by d))"

definition users_can_read_public_documents :: "uuid option \<Rightarrow> document \<Rightarrow> bool" where
  "users_can_read_public_documents u d = (u \<noteq> None \<and> d_is_public d)"

definition documents_select :: "uuid option \<Rightarrow> document \<Rightarrow> bool" where
  "documents_select u d =
     (users_can_read_own_documents u d \<or> users_can_read_public_documents u d)"

text \<open>(1) "Users can create documents".\<close>

definition documents_insert_check :: "uuid option \<Rightarrow> document \<Rightarrow> bool" where
  "documents_insert_check u d = (u = Some (d_created_by d))"

text \<open>\<open>SELECT id FROM documents WHERE created_by = auth.uid()\<close> and
  \<open>SELECT id FROM documents WHERE is_public = true\<close>, as the user sees them.\<close>

definition own_document_ids :: "uuid option \<Rightarrow> db \<Rightarrow> uuid list" where
  "own_document_ids u s =
     map d_id (filter (\<lambda>d. u = Some (d_created_by d))
                 (filter (documents_select u) (documents s)))"

definition public_document_ids :: "uuid option \<Rightarrow> db \<Rightarrow> uuid list" where
  "public_document_ids u s =
     map d_id (filter d_is_public (filter (documents_select u) (documents s)))"

text \<open>"Users can read versions of own documents", "... of public documents".\<close>

definition document_versions_select :: "uuid option \<Rightarrow> db \<Rightarrow> document_version \<Rightarrow> bool" where
  "document_versions_select u s v =
     (u \<noteq> None \<and>
      (v_document_id v \<in> set (own_document_ids u s) \<or>
       v_document_id v \<in> set (public_document_ids u s)))"

text \<open>"Users can create versions for own documents".\<close>

definition document_versions_insert_check ::
  "uuid option \<Rightarrow> db \<Rightarrow> document_version \<Rightarrow> bool" where
  "document_versions_insert_check u s v =
     (v_document_id v \<in> set (own_document_ids u s) \<and> u = Some (v_uploaded_by v))"

text \<open>"Users can read comments on own documents", "... on public documents".\<close>

definition comments_select :: "uuid option \<Rightarrow> db \<Rightarrow> comment \<Rightarrow> bool" where
  "comments_select u s c =
     (u \<noteq> None \<and>
      (c_document_id c \<in> set (own_document_ids u s) \<or>
       c_document_id c \<in> set (public_document_ids u s)))"

text \<open>"Users can create comments on own documents".\<close>

definition comments_insert_check :: "uuid option \<Rightarrow> db \<Rightarrow> comment \<Rightarrow> bool" where
  "comments_insert_check u s c =
     (c_document_id c \<in> set (own_document_ids u s) \<and> u = Some (c_created_by c))"

text \<open>"Users can read approvals for own documents".\<close>

definition approvals_select :: "uuid option \<Rightarrow> db \<Rightarrow> approval \<Rightarrow> bool" where
  "approvals_select u s a =
     (u \<noteq> None \<and>
      (a_document_id a \<in> set (own_document_ids u s) \<or> u = Some (a_assigned_to a)))"

text \<open>"Users can create approval requests for own documents".\<close>

definition approvals_insert_check :: "uuid option \<Rightarrow> db \<Rightarrow> approval \<Rightarrow> bool" where
  "approvals_insert_check u s a =
     (a_document_id a \<in> set (own_document_ids u s) \<and> u = Some (a_requested_by a))"

text \<open>(1) "Assigned users can update approval status": \<open>USING\<close> for the stored row,
  \<open>WITH CHECK\<close> for the row as updated, the same expression.\<close>

definition approvals_update_policy :: "uuid option \<Rightarrow> approval \<Rightarrow> bool" where
  "approvals_update_policy u a = (u = Some (a_assigned_to a))"

text \<open>"Users can read activity logs for own documents".\<close>

definition activity_logs_select :: "uuid option \<Rightarrow> db \<Rightarrow> activity_log \<Rightarrow> bool" where
  "activity_logs_select u s l =
     (u \<noteq> None \<and> l_document_id l \<in> set (own_document_ids u s))"

text \<open>(1) "Users can create activity logs".\<close>

definition activity_logs_insert_check :: "uuid option \<Rightarrow> activity_log \<Rightarrow> bool" where
  "activity_logs_insert_check u l = (u = Some (l_user_id l))"

text \<open>"Users can read their own shares", and "Document owners can manage shares"
  (\<open>FOR ALL\<close>, so it also lets its rows be read).\<close>

definition document_shares_manage :: "uuid option \<Rightarrow> document_share \<Rightarrow> bool" where
  "document_shares_manage u r = (u = Some (s_shared_by r))"

definition document_shares_select :: "uuid option \<Rightarrow> document_share \<Rightarrow> bool" where
  "document_shares_select u r =
     ((u = Some (s_shared_with r) \<or> u = Some (s_shared_by r)) \<or> document_shares_manage u r)"

section \<open>The database\<close>

text \<open>
  One statement of PostgreSQL under row-level security, as the request builder of the
  client library sends it. An \<open>INSERT\<close> evaluates the \<open>WITH CHECK\<close> of the insert
  policies on the new row, then the unique indexes, then the foreign keys; with
  \<open>.select()\<close> it is \<open>INSERT ... RETURNING\<close>, which also needs a select policy to
  admit the new row; \<open>.single()\<close> wants exactly one row back. A statement that fails
  changes nothing.
\<close>

definition fk_opt :: "uuid option \<Rightarrow> uuid list \<Rightarrow> bool" where
  "fk_opt x ids = (case x of None \<Rightarrow> True | Some i \<Rightarrow> i \<in> set ids)"

definition insert_document :: "uuid option \<Rightarrow> document \<Rightarrow> db \<Rightarrow> document response \<times> db" where
  "insert_document u row s =
     (if \<not> documents_insert_check u row then ((None, Some RlsViolation), s)
      else if d_id row \<in> set (map d_id (documents s)) then ((None, Some UniqueViolation), s)
      else if d_created_by row \<notin> set (users s) then ((None, Some ForeignKeyViolation), s)
      else if \<not> documents_select u row then ((None, Some RlsViolation), s)
      else ((Some row, None), s\<lparr>documents := documents s @ [row]\<rparr>))"

text \<open>\<open>UNIQUE(document_id, version_number)\<close> is the second test for 23505.\<close>

definition insert_document_version ::
  "uuid option \<Rightarrow> document_version \<Rightarrow> db \<Rightarrow> document_version response \<times> db" where
  "insert_document_version u row s =
     (if \<not> document_versions_insert_check u s row then ((None, Some RlsViolation), s)
      else if v_id row \<in> set (map v_id (document_versions s))
        then ((None, Some UniqueViolation), s)
      else if (v_document_id row, v_version_number row)
                \<in> set (map (\<lambda>v. (v_document_id v, v_version_number v)) (document_versions s))
        then ((None, Some UniqueViolation), s)
      else if v_document_id row \<notin> set (map d_id (documents s)) \<or> v_uploaded_by row \<notin> set (users s)
        then ((None, Some ForeignKeyViolation), s)
      else if \<not> document_versions_select u s row then ((None, Some RlsViolation), s)
      else ((Some row, None), s\<lparr>document_versions := document_versions s @ [row]\<rparr>))"

definition insert_comment :: "uuid option \<Rightarrow> comment \<Rightarrow> db \<Rightarrow> comment response \<times> db" where
  "insert_comment u row s =
     (if \<not> comments_insert_check u s row then ((None, Some RlsViolation), s)
      else if c_id row \<in> set (map c_id (comments s)) then ((None, Some UniqueViolation), s)
      else if c_document_id row \<notin> set (map d_id (documents s))
              \<or> \<not> fk_opt (c_version_id row) (map v_id (document_versions s))
              \<or> c_created_by row \<notin> set (users s)
              \<or> \<not> fk_opt (c_parent_id row) (map c_id (comments s))
        then ((None, Some ForeignKeyViolation), s)
      else if \<not> comments_select u s row then ((None, Some RlsViolation), s)
      else ((Some row, None), s\<lparr>comments := comments s @ [row]\<rparr>))"

definition insert_approval :: "uuid option \<Rightarrow> approval \<Rightarrow> db \<Rightarrow> approval response \<times> db" where
  "insert_approval u row s =
     (if \<not> approvals_insert_check u s row then ((None, Some RlsViolation), s)
      else if a_id row \<in> set (map a_id (approvals s)) then ((None, Some UniqueViolation), s)
      else if a_document_id row \<notin> set (map d_id (documents s))
              \<or> \<not> fk_opt (a_version_id row) (map v_id (document_versions s))
              \<or> a_requested_by row \<notin> set (users s)
              \<or> a_assigned_to row \<notin> set (users s)
        then ((None, Some ForeignKeyViolation), s)
      else if \<not> approvals_select u s row then ((None, Some RlsViolation), s)
      else ((Some row, None), s\<lparr>approvals := approvals s @ [row]\<rparr>))"

text \<open>
  \<open>.update({status, notes, updated_at}).eq('id', approvalId).select().single()\<close>:
  the rows with that id which the select and update policies show to the user are
  updated; a key whose value is \<open>undefined\<close> is not sent, so \<open>notes\<close> stays as it is
  when none is given. The updated rows must pass the policies again. No condition on
  the stored \<open>status\<close> is part of the statement or of a policy.
\<close>

definition resolved ::
  "approval_status \<Rightarrow> string option \<Rightarrow> timestamptz \<Rightarrow> approval \<Rightarrow> approval" where
  "resolved status notes updated_at a =
     a\<lparr>a_status := status,
       a_notes := (case notes of None \<Rightarrow> a_notes a | Some n \<Rightarrow> Some n),
       a_updated_at := updated_at\<rparr>"

definition update_approval ::
  "uuid option \<Rightarrow> uuid \<Rightarrow> approval_status \<Rightarrow> string option \<Rightarrow> timestamptz \<Rightarrow> db
     \<Rightarrow> approval response \<times> db" where
  "update_approval u approvalId status notes updated_at s =
     (let hit = (\<lambda>a. a_id a = approvalId \<and> approvals_select u s a
                        \<and> approvals_update_policy u a);
          rows = map (resolved status notes updated_at) (filter hit (approvals s))
      in if \<exists>a \<in> set rows. \<not> (approvals_update_policy u a \<and> approvals_select u s a)
           then ((None, Some RlsViolation), s)
         else (case rows of
                 [a] \<Rightarrow>
                   ((Some a, None),
                    s\<lparr>approvals :=
                        map (\<lambda>a. if hit a then resolved status notes updated_at a else a)
                          (approvals s)\<rparr>)
               | _ \<Rightarrow> ((None, Some NoRows), s)))"

text \<open>
  \<open>.insert(...)\<close> without \<open>.select()\<close>: no row comes back, so no select policy is
  asked. The request itself may fail.
\<close>

definition insert_activity_log :: "env \<Rightarrow> activity_log \<Rightarrow> db \<Rightarrow> error option \<times> db" where
  "insert_activity_log e row s =
     (case log_insert_error e of
        Some err \<Rightarrow> (Some err, s)
      | None \<Rightarrow>
          if \<not> activity_logs_insert_check (auth_user e) row then (Some RlsViolation, s)
          else if l_id row \<in> set (map l_id (activity_logs s)) then (Some UniqueViolation, s)
          else if l_document_id row \<notin> set (map d_id (documents s)) \<or> l_user_id row \<notin> set (users s)
            then (Some ForeignKeyViolation, s)
          else (None, s\<lparr>activity_logs := activity_logs s @ [row]\<rparr>))"

text \<open>
  \<open>.upsert(row)\<close> with no \<open>onConflict\<close> option is
  \<open>INSERT ... ON CONFLICT (id) DO UPDATE SET ... RETURNING\<close>: the conflict target is the
  primary key. The row sent has no \<open>id\<close>, so it gets a generated one, and only a
  stored row with that very id is overwritten; a stored row with the same
  \<open>(document_id, shared_with)\<close> and another id violates
  \<open>UNIQUE(document_id, shared_with)\<close>.
\<close>

definition upsert_document_share ::
  "uuid option \<Rightarrow> document_share \<Rightarrow> db \<Rightarrow> document_share response \<times> db" where
  "upsert_document_share u row s =
     (if \<not> document_shares_manage u row then ((None, Some RlsViolation), s)
      else
        (case filter (\<lambda>r. s_id r = s_id row) (document_shares s) of
           [] \<Rightarrow>
             if (s_document_id row, s_shared_with row)
                  \<in> set (map (\<lambda>r. (s_document_id r, s_shared_with r)) (document_shares s))
               then ((None, Some UniqueViolation), s)
             else if s_document_id row \<notin> set (map d_id (documents s))
                     \<or> s_shared_with row \<notin> set (users s) \<or> s_shared_by row \<notin> set (users s)
               then ((None, Some ForeignKeyViolation), s)
             else if \<not> document_shares_select u row then ((None, Some RlsViolation), s)
             else ((Some row, None), s\<lparr>document_shares := document_shares s @ [row]\<rparr>)
         | old # _ \<Rightarrow>
             (let new = old\<lparr>s_document_id := s_document_id row,
                            s_shared_with := s_shared_with row,
                            s_permission := s_permission row,
                            s_shared_by := s_shared_by row\<rparr>
              in if \<not> (document_shares_manage u old \<and> document_shares_select u old)
                   then ((None, Some RlsViolation), s)
                 else if (s_document_id new, s_shared_with new)
                      \<in> set (map (\<lambda>r. (s_document_id r, s_shared_with r))
                                (filter (\<lambda>r. s_id r \<noteq> s_id row) (document_shares s)))
                   then ((None, Some UniqueViolation), s)
                 else if s_document_id new \<notin> set (map d_id (documents s))
                         \<or> s_shared_with new \<notin> set (users s) \<or> s_shared_by new \<notin> set (users s)
                   then ((None, Some ForeignKeyViolation), s)
                 else ((Some new, None),
                       s\<lparr>document_shares :=
                           map (\<lambda>r. if s_id r = s_id row then new else r) (document_shares s)\<rparr>))))"

text \<open>
  \<open>supabase.storage.from('documents').upload(filePath, file)\<close>: the storage policy
  "Authenticated users can upload documents" admits every session, and an object is
  not overwritten. The object is filed under the name the service takes from the
  request, \<open>object_name e path\<close>.
\<close>

definition storage_upload :: "env \<Rightarrow> string \<Rightarrow> File \<Rightarrow> db \<Rightarrow> error option \<times> db" where
  "storage_upload e path f s =
     (case storage_upload_error e of
        Some err \<Rightarrow> (Some err, s)
      | None \<Rightarrow>
          if auth_user e = None then (Some (StorageError ''Unauthorized''), s)
          else if object_name e path \<in> set (map fst (storage_objects s))
            then (Some (StorageError ''Duplicate''), s)
          else (None, s\<lparr>storage_objects := storage_objects s @ [(object_name e path, f)]\<rparr>))"

section \<open>The operations of \<open>documents.ts\<close>\<close>

text \<open>
  Each operation takes the environment and the backend and gives what its promise
  settles with, and the backend afterwards. \<open>if (!error && data)\<close> is the case
  \<open>(Some d, None)\<close> of the response.
\<close>

definition logActivity ::
  "env \<Rightarrow> db \<Rightarrow> uuid \<Rightarrow> string \<Rightarrow> json option \<Rightarrow> unit completion \<times> db" where
  "logActivity e s documentId action details =
     (case auth_user e of
        None \<Rightarrow> (Returned (), s)
      | Some user_id \<Rightarrow>
          (case insert_activity_log e
                  \<lparr>l_id = log_random_uuid e, l_document_id = documentId, l_user_id = user_id,
                   l_action = action, l_details = details, l_created_at = now e\<rparr> s of
             (error, s') \<Rightarrow> (Returned (), s')))"

text \<open>\<open>await logActivity(...); return { data, error }\<close>: a rejection of the awaited
  promise would be the caller's.\<close>

definition then_return ::
  "unit completion \<times> db \<Rightarrow> 'a response \<Rightarrow> 'a response completion \<times> db" where
  "then_return logged r =
     (case logged of
        (Thrown m, s) \<Rightarrow> (Thrown m, s)
      | (Returned _, s) \<Rightarrow> (Returned r, s))"

definition createDocument ::
  "env \<Rightarrow> db \<Rightarrow> string \<Rightarrow> string option \<Rightarrow> document response completion \<times> db" where
  "createDocument e s title description =
     (case auth_user e of
        None \<Rightarrow> (Thrown ''User not authenticated'', s)
      | Some user_id \<Rightarrow>
          (case insert_document (auth_user e)
                  \<lparr>d_id = gen_random_uuid e, d_title = title, d_description = description,
                   d_created_by = user_id, d_created_at = now e, d_updated_at = now e,
                   d_is_public = False\<rparr> s of
             ((Some data, None), s') \<Rightarrow>
               then_return
                 (logActivity e s' (d_id data) ''document_created''
                    (Some (JObject [(''title'', JString title)])))
                 (Some data, None)
           | (r, s') \<Rightarrow> (Returned r, s')))"

subsection \<open>\<open>uploadDocumentVersion\<close>\<close>

text \<open>
  The query for the latest version, \<open>.eq('document_id', documentId)
  .order('version_number', { ascending: false }).limit(1)\<close>, gives the rows the select
  policies show; \<open>versions\<close> is \<open>null\<close> when the request fails.
\<close>

definition latest_versions ::
  "env \<Rightarrow> db \<Rightarrow> uuid \<Rightarrow> document_version list option" where
  "latest_versions e s documentId =
     (case versions_query_error e of
        Some err \<Rightarrow> None
      | None \<Rightarrow>
          Some (take 1 (rev (sort_key v_version_number
                  (filter (\<lambda>v. v_document_id v = documentId
                               \<and> document_versions_select (auth_user e) s v)
                     (document_versions s))))))"

text \<open>\<open>versions && versions.length > 0 ? versions[0].version_number + 1 : 1\<close>\<close>

definition nextVersion :: "document_version list option \<Rightarrow> int" where
  "nextVersion versions =
     (case versions of
        Some (v # vs) \<Rightarrow> v_version_number v + 1
      | _ \<Rightarrow> 1)"

text \<open>
  \<open>String.prototype.split\<close> with a one-character separator (the empty string gives one
  empty piece) and \<open>Array.prototype.pop\<close> (\<open>undefined\<close> on an empty array, which a
  template literal prints as the word).
\<close>

fun js_split :: "char \<Rightarrow> string \<Rightarrow> string list" where
  "js_split sep [] = [[]]"
| "js_split sep (c # cs) =
     (if c = sep then [] # js_split sep cs
      else (case js_split sep cs of
              [] \<Rightarrow> [[c]]
            | w # ws \<Rightarrow> (c # w) # ws))"

definition js_pop :: "'a list \<Rightarrow> 'a option" where
  "js_pop xs = (if xs = [] then None else Some (last xs))"

definition fileExt :: "string \<Rightarrow> string" where
  "fileExt name = (case js_pop (js_split CHR ''.'' name) of
                     None \<Rightarrow> ''undefined''
                   | Some ext \<Rightarrow> ext)"

definition fileName :: "string \<Rightarrow> string \<Rightarrow> string" where
  "fileName uuid name = uuid @ ''.'' @ fileExt name"

definition filePath :: "uuid \<Rightarrow> string \<Rightarrow> string \<Rightarrow> string" where
  "filePath documentId uuid name = documentId @ ''/'' @ fileName uuid name"

text \<open>
  The rest of the function, from the storage upload on, for the version number and the
  path computed before: the state it runs in is the one at the time of the upload,
  which another client may have changed since the number was read.
\<close>

definition upload_and_insert ::
  "env \<Rightarrow> db \<Rightarrow> uuid \<Rightarrow> File \<Rightarrow> string option \<Rightarrow> uuid \<Rightarrow> int \<Rightarrow> string
     \<Rightarrow> document_version response completion \<times> db" where
  "upload_and_insert e s documentId file notes user_id next path =
     (case storage_upload e path file s of
        (Some uploadError, s1) \<Rightarrow> (Returned (None, Some uploadError), s1)
      | (None, s1) \<Rightarrow>
          (case insert_document_version (auth_user e)
                  \<lparr>v_id = gen_random_uuid e, v_document_id = documentId,
                   v_version_number = next, v_file_path = path,
                   v_file_name = f_name file, v_file_size = f_size file,
                   v_mime_type = f_type file, v_uploaded_by = user_id,
                   v_created_at = now e, v_notes = notes\<rparr> s1 of
             ((Some data, None), s2) \<Rightarrow>
               then_return
                 (logActivity e s2 documentId ''version_uploaded''
                    (Some (JObject [(''version'', JNumber next),
                                    (''fileName'', JString (f_name file))])))
                 (Some data, None)
           | (r, s2) \<Rightarrow> (Returned r, s2)))"

definition uploadDocumentVersion ::
  "env \<Rightarrow> db \<Rightarrow> uuid \<Rightarrow> File \<Rightarrow> string option
     \<Rightarrow> document_version response completion \<times> db" where
  "uploadDocumentVersion e s documentId file notes =
     (case auth_user e of
        None \<Rightarrow> (Thrown ''User not authenticated'', s)
      | Some user_id \<Rightarrow>
          upload_and_insert e s documentId file notes user_id
            (nextVersion (latest_versions e s documentId))
            (filePath documentId (uuid_v4 e) (f_name file)))"

subsection \<open>Comments, approvals, shares\<close>

text \<open>\<open>content.substring(0, 50)\<close> is \<open>take 50 content\<close>.\<close>

definition addComment ::
  "env \<Rightarrow> db \<Rightarrow> uuid \<Rightarrow> string \<Rightarrow> uuid option \<Rightarrow> uuid option
     \<Rightarrow> comment response completion \<times> db" where
  "addComment e s documentId content versionId parentId =
     (case auth_user e of
        None \<Rightarrow> (Thrown ''User not authenticated'', s)
      | Some user_id \<Rightarrow>
          (case insert_comment (auth_user e)
                  \<lparr>c_id = gen_random_uuid e, c_document_id = documentId,
                   c_version_id = versionId, c_content = content, c_created_by = user_id,
                   c_created_at = now e, c_updated_at = now e, c_parent_id = parentId\<rparr> s of
             ((Some data, None), s') \<Rightarrow>
               then_return
                 (logActivity e s' documentId ''comment_added''
                    (Some (JObject [(''content'', JString (take 50 content))])))
                 (Some data, None)
           | (r, s') \<Rightarrow> (Returned r, s')))"

definition requestApproval ::
  "env \<Rightarrow> db \<Rightarrow> uuid \<Rightarrow> uuid \<Rightarrow> uuid option \<Rightarrow> string option
     \<Rightarrow> approval response completion \<times> db" where
  "requestApproval e s documentId assignedTo versionId notes =
     (case auth_user e of
        None \<Rightarrow> (Thrown ''User not authenticated'', s)
      | Some user_id \<Rightarrow>
          (case insert_approval (auth_user e)
                  \<lparr>a_id = gen_random_uuid e, a_document_id = documentId,
                   a_version_id = versionId, a_requested_by = user_id,
                   a_assigned_to = assignedTo, a_status = Pending, a_notes = notes,
                   a_created_at = now e, a_updated_at = now e\<rparr> s of
             ((Some data, None), s') \<Rightarrow>
               then_return
                 (logActivity e s' documentId ''approval_requested''
                    (Some (JObject [(''assignedTo'', JString assignedTo)])))
                 (Some data, None)
           | (r, s') \<Rightarrow> (Returned r, s')))"

text \<open>The status of the call is \<open>'approved' | 'rejected'\<close>; as JSON it is its name.\<close>

fun status_name :: "approval_status \<Rightarrow> string" where
  "status_name Pending = ''pending''"
| "status_name Approved = ''approved''"
| "status_name Rejected = ''rejected''"

fun permission_name :: "permission \<Rightarrow> string" where
  "permission_name View = ''view''"
| "permission_name Comment = ''comment''"
| "permission_name Edit = ''edit''"

definition updateApprovalStatus ::
  "env \<Rightarrow> db \<Rightarrow> uuid \<Rightarrow> approval_status \<Rightarrow> string option
     \<Rightarrow> approval response completion \<times> db" where
  "updateApprovalStatus e s approvalId status notes =
     (case update_approval (auth_user e) approvalId status notes (now e) s of
        ((Some data, None), s') \<Rightarrow>
          then_return
            (logActivity e s' (a_document_id data) ''approval_updated''
               (Some (JObject [(''status'', JString (status_name status))])))
            (Some data, None)
      | (r, s') \<Rightarrow> (Returned r, s'))"

definition shareDocument ::
  "env \<Rightarrow> db \<Rightarrow> uuid \<Rightarrow> uuid \<Rightarrow> permission
     \<Rightarrow> document_share response completion \<times> db" where
  "shareDocument e s documentId sharedWith permission =
     (case auth_user e of
        None \<Rightarrow> (Thrown ''User not authenticated'', s)
      | Some user_id \<Rightarrow>
          (case upsert_document_share (auth_user e)
                  \<lparr>s_id = gen_random_uuid e, s_document_id = documentId,
                   s_shared_with = sharedWith, s_permission = permission,
                   s_shared_by = user_id, s_created_at = now e\<rparr> s of
             ((Some data, None), s') \<Rightarrow>
               then_return
                 (logActivity e s' documentId ''document_shared''
                    (Some (JObject [(''sharedWith'', JString sharedWith),
                                    (''permission'', JString (permission_name permission))])))
                 (Some data, None)
           | (r, s') \<Rightarrow> (Returned r, s')))"

subsection \<open>Reads\<close>

text \<open>
  A \<open>select\<close> gives the rows that the select policies of the table show to the user;
  the embedded \<open>document_versions\<close> of a document are filtered by their own policies
  (they are given as whole rows here; the source asks for some of their columns).
  A read leaves the backend as it is.
\<close>

definition embedded_versions :: "uuid option \<Rightarrow> db \<Rightarrow> document \<Rightarrow> document_version list" where
  "embedded_versions u s d =
     filter (\<lambda>v. v_document_id v = d_id d \<and> document_versions_select u s v)
       (document_versions s)"

definition getDocuments ::
  "env \<Rightarrow> db \<Rightarrow> (document \<times> document_version list) list response completion" where
  "getDocuments e s =
     Returned
       (Some (map (\<lambda>d. (d, embedded_versions (auth_user e) s d))
                (rev (sort_key d_updated_at
                        (filter (documents_select (auth_user e)) (documents s))))),
        None)"

definition getDocument ::
  "env \<Rightarrow> db \<Rightarrow> uuid \<Rightarrow> (document \<times> document_version list) response completion" where
  "getDocument e s documentId =
     (case filter (\<lambda>d. d_id d = documentId \<and> documents_select (auth_user e) d)
             (documents s) of
        [d] \<Rightarrow> Returned (Some (d, embedded_versions (auth_user e) s d), None)
      | _ \<Rightarrow> Returned (None, Some NoRows))"

definition getDocumentVersions ::
  "env \<Rightarrow> db \<Rightarrow> uuid \<Rightarrow> document_version list response completion" where
  "getDocumentVersions e s documentId =
     Returned
       (Some (rev (sort_key v_version_number
                (filter (\<lambda>v. v_document_id v = documentId
                             \<and> document_versions_select (auth_user e) s v)
                   (document_versions s)))),
        None)"

text \<open>\<open>if (versionId)\<close>: an empty string is as good as none.\<close>

definition getComments ::
  "env \<Rightarrow> db \<Rightarrow> uuid \<Rightarrow> uuid option \<Rightarrow> comment list response completion" where
  "getComments e s documentId versionId =
     Returned
       (Some (sort_key c_created_at
                (filter (\<lambda>c. c_document_id c = documentId
                             \<and> (versionId = None \<or> versionId = Some [] \<or> c_version_id c = versionId)
                             \<and> comments_select (auth_user e) s c)
                   (comments s))),
        None)"

definition getApprovals ::
  "env \<Rightarrow> db \<Rightarrow> uuid \<Rightarrow> approval list response completion" where
  "getApprovals e s documentId =
     Returned
       (Some (rev (sort_key a_created_at
                (filter (\<lambda>a. a_document_id a = documentId \<and> approvals_select (auth_user e) s a)
                   (approvals s)))),
        None)"

definition getActivityLog ::
  "env \<Rightarrow> db \<Rightarrow> uuid \<Rightarrow> activity_log list response completion" where
  "getActivityLog e s documentId =
     Returned
       (Some (take 50 (rev (sort_key l_created_at
                (filter (\<lambda>l. l_document_id l = documentId
                             \<and> activity_logs_select (auth_user e) s l)
                   (activity_logs s))))),
        None)"

section \<open>The ledger of a document\<close>

text \<open>
  The version rows of one document and their numbers; the unique constraint
  \<open>UNIQUE(document_id, version_number)\<close> as a property of the table; and the
  property of a ledger written by \<open>uploadDocumentVersion\<close> alone that a document
  with any version has version 1.
\<close>

definition versions_of :: "db \<Rightarrow> uuid \<Rightarrow> document_version list" where
  "versions_of s documentId =
     filter (\<lambda>v. v_document_id v = documentId) (document_versions s)"

definition version_numbers :: "db \<Rightarrow> uuid \<Rightarrow> int list" where
  "version_numbers s documentId = map v_version_number (versions_of s documentId)"

definition versions_unique :: "db \<Rightarrow> bool" where
  "versions_unique s =
     distinct (map (\<lambda>v. (v_document_id v, v_version_number v)) (document_versions s))"

definition ledger_starts_at_one :: "db \<Rightarrow> bool" where
  "ledger_starts_at_one s =
     (\<forall>v \<in> set (document_versions s). 1 \<in> set (version_numbers s (v_document_id v)))"

text \<open>The owner of a document: \<open>created_by\<close> of the row with that id.\<close>

definition is_owner :: "db \<Rightarrow> uuid \<Rightarrow> uuid \<Rightarrow> bool" where
  "is_owner s u documentId =
     (\<exists>d \<in> set (documents s). d_id d = documentId \<and> d_created_by d = u)"

text \<open>The primary keys and \<open>UNIQUE(document_id, shared_with)\<close> of
  \<open>document_shares\<close>.\<close>

definition shares_unique :: "db \<Rightarrow> bool" where
  "shares_unique s =
     (distinct (map s_id (document_shares s)) \<and>
      distinct (map (\<lambda>r. (s_document_id r, s_shared_with r)) (document_shares s)))"

section \<open>An example backend\<close>

text \<open>
  A backend to run the operations on: alice owns the private document \<open>d1\<close> with
  versions 1 and 2, has shared it with bob for editing and has asked bob for an
  approval, which bob has given; carol has nothing to do with it.
\<close>

definition spec_document :: document where
  "spec_document =
     \<lparr>d_id = ''d1'', d_title = ''Spec v1'', d_description = None, d_created_by = ''alice'',
      d_created_at = 1, d_updated_at = 1, d_is_public = False\<rparr>"

definition bobs_approval :: approval where
  "bobs_approval =
     \<lparr>a_id = ''a1'', a_document_id = ''d1'', a_version_id = None,
      a_requested_by = ''alice'', a_assigned_to = ''bob'', a_status = Approved,
      a_notes = None, a_created_at = 4, a_updated_at = 5\<rparr>"

definition example_db :: db where
  "example_db =
     \<lparr>users = [''alice'', ''bob'', ''carol''],
      documents = [spec_document],
      document_versions =
        [\<lparr>v_id = ''v1'', v_document_id = ''d1'', v_version_number = 1,
          v_file_path = ''d1/t1.pdf'', v_file_name = ''spec.pdf'', v_file_size = 1024,
          v_mime_type = ''application/pdf'', v_uploaded_by = ''alice'', v_created_at = 2,
          v_notes = None\<rparr>,
         \<lparr>v_id = ''v2'', v_document_id = ''d1'', v_version_number = 2,
          v_file_path = ''d1/t2.pdf'', v_file_name = ''spec.pdf'', v_file_size = 2048,
          v_mime_type = ''application/pdf'', v_uploaded_by = ''alice'', v_created_at = 3,
          v_notes = None\<rparr>],
      comments = [],
      approvals = [bobs_approval],
      activity_logs = [],
      document_shares =
        [\<lparr>s_id = ''s1'', s_document_id = ''d1'', s_shared_with = ''bob'', s_permission = Edit,
          s_shared_by = ''alice'', s_created_at = 4\<rparr>],
      storage_objects = []\<rparr>"

definition session :: "uuid option \<Rightarrow> env" where
  "session u =
     \<lparr>auth_user = u, uuid_v4 = ''t9'', gen_random_uuid = ''r9'', log_random_uuid = ''g9'',
      now = 9, versions_query_error = None, storage_upload_error = None,
      log_insert_error = None,
      object_name = takeWhile (\<lambda>c. c \<noteq> CHR ''#'' \<and> c \<noteq> CHR ''?'')\<rparr>"

definition spec_pdf :: File where
  "spec_pdf = \<lparr>f_name = ''spec.pdf'', f_size = 1024, f_type = ''application/pdf''\<rparr>"

text \<open>The version that alice's session uploads next, and a second session of alice
  (another tab) with tokens of its own.\<close>

definition third_version :: document_version where
  "third_version =
     \<lparr>v_id = ''r9'', v_document_id = ''d1'', v_version_number = 3,
      v_file_path = ''d1/t9.pdf'', v_file_name = ''spec.pdf'', v_file_size = 1024,
      v_mime_type = ''application/pdf'', v_uploaded_by = ''alice'', v_created_at = 9,
      v_notes = None\<rparr>"

definition second_session :: env where
  "second_session =
     (session (Some ''alice''))
       \<lparr>uuid_v4 := ''t10'', gen_random_uuid := ''r10'', log_random_uuid := ''g10''\<rparr>"

text \<open>The example backend before anything was shared.\<close>

definition unshared_db :: db where
  "unshared_db = example_db\<lparr>document_shares := []\<rparr>"

text \<open>A file with two dots in its name, and the version that alice's session makes
  of it.\<close>

definition draft_docx :: File where
  "draft_docx =
     \<lparr>f_name = ''draft.final.docx'', f_size = 4096,
      f_type = ''application/vnd.openxmlformats-officedocument.wordprocessingml.document''\<rparr>"

definition draft_version :: document_version where
  "draft_version =
     \<lparr>v_id = ''r9'', v_document_id = ''d1'', v_version_number = 3,
      v_file_path = ''d1/t9.docx'', v_file_name = ''draft.final.docx'', v_file_size = 4096,
      v_mime_type = ''application/vnd.openxmlformats-officedocument.wordprocessingml.document'',
      v_uploaded_by = ''alice'', v_created_at = 9, v_notes = None\<rparr>"

text \<open>A session whose storage upload fails.\<close>

definition failing_upload :: "uuid option \<Rightarrow> env" where
  "failing_upload u =
     (session u)\<lparr>storage_upload_error := Some (StorageError ''Payload too large'')\<rparr>"

definition long_comment :: string where
  "long_comment = ''Please check section 4.3 again: the numbering of versions is off by one.''"

section \<open>Auxiliary facts\<close>

subsection \<open>The activity entry\<close>

lemma logActivity_returned: "fst (logActivity e s d a det) = Returned ()"
  by (simp add: logActivity_def split: option.split prod.split)

lemma logActivity_state:
  "snd (logActivity e s d a det) = s \<or>
   (\<exists>u. auth_user e = Some u \<and> log_insert_error e = None \<and>
        snd (logActivity e s d a det) =
          s\<lparr>activity_logs := activity_logs s @
              [\<lparr>l_id = log_random_uuid e, l_document_id = d, l_user_id = u, l_action = a,
                l_details = det, l_created_at = now e\<rparr>]\<rparr>)"
  by (auto simp: logActivity_def insert_activity_log_def split: option.split prod.split)

lemma then_return_logActivity:
  "then_return (logActivity e s d a det) r = (Returned r, snd (logActivity e s d a det))"
  using logActivity_returned [of e s d a det]
  by (cases "logActivity e s d a det") (simp add: then_return_def)

lemma insert_activity_log_written:
  "log_insert_error e = None \<Longrightarrow> auth_user e = Some (l_user_id row) \<Longrightarrow>
   l_id row \<notin> set (map l_id (activity_logs s)) \<Longrightarrow>
   l_document_id row \<in> set (map d_id (documents s)) \<Longrightarrow> l_user_id row \<in> set (users s) \<Longrightarrow>
   insert_activity_log e row s = (None, s\<lparr>activity_logs := activity_logs s @ [row]\<rparr>)"
  by (simp add: insert_activity_log_def activity_logs_insert_check_def)

lemma logActivity_other_fields:
  "documents (snd (logActivity e s d a det)) = documents s"
  "document_versions (snd (logActivity e s d a det)) = document_versions s"
  "comments (snd (logActivity e s d a det)) = comments s"
  "approvals (snd (logActivity e s d a det)) = approvals s"
  "document_shares (snd (logActivity e s d a det)) = document_shares s"
  "users (snd (logActivity e s d a det)) = users s"
  "storage_objects (snd (logActivity e s d a det)) = storage_objects s"
  using logActivity_state [of e s d a det] by auto

lemma storage_upload_fields:
  "documents (snd (storage_upload e p f s)) = documents s"
  "document_versions (snd (storage_upload e p f s)) = document_versions s"
  "activity_logs (snd (storage_upload e p f s)) = activity_logs s"
  "users (snd (storage_upload e p f s)) = users s"
  by (simp_all add: storage_upload_def split: option.split if_split)

lemma storage_upload_failed:
  "fst (storage_upload e p f s) = Some err \<Longrightarrow> snd (storage_upload e p f s) = s"
  by (simp add: storage_upload_def split: option.splits if_splits)

lemma storage_upload_log_env:
  "storage_upload (e\<lparr>log_insert_error := x, log_random_uuid := y\<rparr>) p f s = storage_upload e p f s"
  by (auto simp: storage_upload_def split: option.split)

lemma latest_versions_log_env:
  "latest_versions (e\<lparr>log_insert_error := x, log_random_uuid := y\<rparr>) s d = latest_versions e s d"
  by (simp add: latest_versions_def split: option.split)

subsection \<open>What the operations settle with\<close>

text \<open>What each operation settles with: the response of its one write, whatever
  becomes of the activity entry.\<close>

lemma createDocument_fst:
  "fst (createDocument e s title description) =
     (case auth_user e of
        None \<Rightarrow> Thrown ''User not authenticated''
      | Some user_id \<Rightarrow>
          Returned (fst (insert_document (auth_user e)
            \<lparr>d_id = gen_random_uuid e, d_title = title, d_description = description,
             d_created_by = user_id, d_created_at = now e, d_updated_at = now e,
             d_is_public = False\<rparr> s)))"
  by (simp add: createDocument_def then_return_logActivity
           split: option.split prod.split)

lemma upload_and_insert_fst:
  "fst (upload_and_insert e s documentId file notes user_id next path) =
     (case storage_upload e path file s of
        (Some uploadError, s1) \<Rightarrow> Returned (None, Some uploadError)
      | (None, s1) \<Rightarrow>
          Returned (fst (insert_document_version (auth_user e)
            \<lparr>v_id = gen_random_uuid e, v_document_id = documentId,
             v_version_number = next, v_file_path = path,
             v_file_name = f_name file, v_file_size = f_size file,
             v_mime_type = f_type file, v_uploaded_by = user_id,
             v_created_at = now e, v_notes = notes\<rparr> s1)))"
  by (simp add: upload_and_insert_def then_return_logActivity
           split: option.split prod.split)

lemma uploadDocumentVersion_fst:
  "fst (uploadDocumentVersion e s documentId file notes) =
     (case auth_user e of
        None \<Rightarrow> Thrown ''User not authenticated''
      | Some user_id \<Rightarrow>
          fst (upload_and_insert e s documentId file notes user_id
                 (nextVersion (latest_versions e s documentId))
                 (filePath documentId (uuid_v4 e) (f_name file))))"
  by (simp add: uploadDocumentVersion_def split: option.split)

lemma addComment_fst:
  "fst (addComment e s documentId content versionId parentId) =
     (case auth_user e of
        None \<Rightarrow> Thrown ''User not authenticated''
      | Some user_id \<Rightarrow>
          Returned (fst (insert_comment (auth_user e)
            \<lparr>c_id = gen_random_uuid e, c_document_id = documentId,
             c_version_id = versionId, c_content = content, c_created_by = user_id,
             c_created_at = now e, c_updated_at = now e, c_parent_id = parentId\<rparr> s)))"
  by (simp add: addComment_def then_return_logActivity
           split: option.split prod.split)

lemma requestApproval_fst:
  "fst (requestApproval e s documentId assignedTo versionId notes) =
     (case auth_user e of
        None \<Rightarrow> Thrown ''User not authenticated''
      | Some user_id \<Rightarrow>
          Returned (fst (insert_approval (auth_user e)
            \<lparr>a_id = gen_random_uuid e, a_document_id = documentId,
             a_version_id = versionId, a_requested_by = user_id,
             a_assigned_to = assignedTo, a_status = Pending, a_notes = notes,
             a_created_at = now e, a_updated_at = now e\<rparr> s)))"
  by (simp add: requestApproval_def then_return_logActivity
           split: option.split prod.split)

lemma updateApprovalStatus_fst:
  "fst (updateApprovalStatus e s approvalId status notes) =
     Returned (fst (update_approval (auth_user e) approvalId status notes (now e) s))"
  by (simp add: updateApprovalStatus_def then_return_logActivity
           split: option.split prod.split)

lemma shareDocument_fst:
  "fst (shareDocument e s documentId sharedWith permission) =
     (case auth_user e of
        None \<Rightarrow> Thrown ''User not authenticated''
      | Some user_id \<Rightarrow>
          Returned (fst (upsert_document_share (auth_user e)
            \<lparr>s_id = gen_random_uuid e, s_document_id = documentId,
             s_shared_with = sharedWith, s_permission = permission,
             s_shared_by = user_id, s_created_at = now e\<rparr> s)))"
  by (simp add: shareDocument_def then_return_logActivity
           split: option.split prod.split)

lemma logActivity_written:
  assumes "auth_user e = Some u" "log_insert_error e = None"
    "log_random_uuid e \<notin> set (map l_id (activity_logs s))"
    "d \<in> set (map d_id (documents s))" "u \<in> set (users s)"
  shows "logActivity e s d a det =
           (Returned (),
            s\<lparr>activity_logs := activity_logs s @
                [\<lparr>l_id = log_random_uuid e, l_document_id = d, l_user_id = u, l_action = a,
                  l_details = det, l_created_at = now e\<rparr>]\<rparr>)"
  using assms by (simp add: logActivity_def insert_activity_log_written)

subsection \<open>Successful writes\<close>

lemma insert_comment_Some:
  assumes "insert_comment u row s = ((Some c, None), s')"
  shows "c = row" "s' = s\<lparr>comments := comments s @ [row]\<rparr>"
    "c_document_id row \<in> set (map d_id (documents s))" "c_created_by row \<in> set (users s)"
    "comments_insert_check u s row"
  using assms by (auto simp: insert_comment_def split: if_splits)

lemma addComment_Some:
  assumes "fst (addComment e s documentId content versionId parentId) = Returned (Some c, None)"
  shows "\<exists>u. auth_user e = Some u \<and> u \<in> set (users s) \<and>
           c = \<lparr>c_id = gen_random_uuid e, c_document_id = documentId,
                c_version_id = versionId, c_content = content, c_created_by = u,
                c_created_at = now e, c_updated_at = now e, c_parent_id = parentId\<rparr> \<and>
           documentId \<in> set (map d_id (documents s)) \<and>
           snd (addComment e s documentId content versionId parentId) =
             snd (logActivity e (s\<lparr>comments := comments s @ [c]\<rparr>) documentId
                    ''comment_added''
                    (Some (JObject [(''content'', JString (take 50 content))])))"
proof (cases "auth_user e")
  case None
  with assms show ?thesis by (simp add: addComment_def)
next
  case (Some u)
  let ?row = "\<lparr>c_id = gen_random_uuid e, c_document_id = documentId,
                c_version_id = versionId, c_content = content, c_created_by = u,
                c_created_at = now e, c_updated_at = now e, c_parent_id = parentId\<rparr>"
  obtain r s1 where ins: "insert_comment (Some u) ?row s = (r, s1)"
    by (cases "insert_comment (Some u) ?row s") auto
  from assms Some ins have r: "r = (Some c, None)"
    by (simp add: addComment_fst)
  from insert_comment_Some [OF ins [unfolded r]]
  have c: "c = ?row" and s1: "s1 = s\<lparr>comments := comments s @ [?row]\<rparr>"
    and doc: "documentId \<in> set (map d_id (documents s))" and usr: "u \<in> set (users s)"
    by simp_all
  from Some ins r
  have "snd (addComment e s documentId content versionId parentId) =
          snd (logActivity e s1 documentId ''comment_added''
                 (Some (JObject [(''content'', JString (take 50 content))])))"
    by (simp add: addComment_def then_return_logActivity)
  with Some c s1 doc usr show ?thesis by simp
qed

section \<open>The claims\<close>

subsection \<open>C8: a failed storage upload writes nothing\<close>

text \<open>
  C8. If the storage upload of \<open>uploadDocumentVersion\<close> fails (the request fails, or
  the storage service refuses the object), the operation settles with \<open>data\<close> null and
  the upload error, and neither \<open>document_versions\<close> nor \<open>activity_logs\<close> has
  changed. The upload is reached only with a session, since without one the function
  has thrown before.
\<close>

theorem upload_error_no_writes:
  assumes "auth_user e = Some u"
    and "fst (storage_upload e (filePath documentId (uuid_v4 e) (f_name file)) file s)
           = Some uploadError"
  shows "fst (uploadDocumentVersion e s documentId file notes)
           = Returned (None, Some uploadError) \<and>
         document_versions (snd (uploadDocumentVersion e s documentId file notes))
           = document_versions s \<and>
         activity_logs (snd (uploadDocumentVersion e s documentId file notes))
           = activity_logs s"
proof -
  let ?p = "filePath documentId (uuid_v4 e) (f_name file)"
  have "storage_upload e ?p file s = (Some uploadError, s)"
    using assms(2) storage_upload_failed [OF assms(2)] by (simp add: prod_eq_iff)
  then have "uploadDocumentVersion e s documentId file notes
               = (Returned (None, Some uploadError), s)"
    using assms(1) by (simp add: uploadDocumentVersion_def upload_and_insert_def)
  then show ?thesis by simp
qed

theorem upload_error_no_writes_witness:
  "fst (uploadDocumentVersion
          (failing_upload (Some ''alice''))
          example_db ''d1'' spec_pdf None)
     = Returned (None, Some (StorageError ''Payload too large'')) \<and>
   document_versions (snd (uploadDocumentVersion
          (failing_upload (Some ''alice''))
          example_db ''d1'' spec_pdf None))
     = document_versions example_db \<and>
   activity_logs (snd (uploadDocumentVersion
          (failing_upload (Some ''alice''))
          example_db ''d1'' spec_pdf None))
     = activity_logs example_db"
proof -
  let ?e = "failing_upload (Some ''alice'')"
  have u: "auth_user ?e = Some ''alice''"
    by (simp add: failing_upload_def session_def)
  have f: "fst (storage_upload ?e (filePath ''d1'' (uuid_v4 ?e) (f_name spec_pdf)) spec_pdf example_db)
             = Some (StorageError ''Payload too large'')"
    by (simp add: storage_upload_def failing_upload_def session_def)
  show ?thesis by (rule upload_error_no_writes [OF u f])
qed

subsection \<open>C9: the activity entry never decides the result\<close>

text \<open>
  C9. \<open>logActivity\<close> always resolves; without a session, or when the insert of the
  entry fails, it leaves the backend as it was; and what each of the six operations
  that call it settles with is the same whatever the outcome of that insert (here:
  whatever failure \<open>x\<close> the request meets and whatever id \<open>y\<close> the entry gets).
\<close>

theorem activity_failure_not_propagated:
  "fst (logActivity e s d a det) = Returned () \<and>
   (auth_user e = None \<or> log_insert_error e \<noteq> None \<longrightarrow> snd (logActivity e s d a det) = s) \<and>
   fst (createDocument (e\<lparr>log_insert_error := x, log_random_uuid := y\<rparr>) s title description)
     = fst (createDocument e s title description) \<and>
   fst (uploadDocumentVersion (e\<lparr>log_insert_error := x, log_random_uuid := y\<rparr>) s documentId file notes)
     = fst (uploadDocumentVersion e s documentId file notes) \<and>
   fst (addComment (e\<lparr>log_insert_error := x, log_random_uuid := y\<rparr>) s documentId content versionId parentId)
     = fst (addComment e s documentId content versionId parentId) \<and>
   fst (requestApproval (e\<lparr>log_insert_error := x, log_random_uuid := y\<rparr>) s documentId assignedTo versionId notes)
     = fst (requestApproval e s documentId assignedTo versionId notes) \<and>
   fst (updateApprovalStatus (e\<lparr>log_insert_error := x, log_random_uuid := y\<rparr>) s approvalId status notes)
     = fst (updateApprovalStatus e s approvalId status notes) \<and>
   fst (shareDocument (e\<lparr>log_insert_error := x, log_random_uuid := y\<rparr>) s documentId sharedWith permission)
     = fst (shareDocument e s documentId sharedWith permission)"
proof -
  have quiet: "auth_user e = None \<or> log_insert_error e \<noteq> None \<longrightarrow> snd (logActivity e s d a det) = s"
    by (auto simp: logActivity_def insert_activity_log_def split: option.split prod.split)
  have up: "fst (uploadDocumentVersion (e\<lparr>log_insert_error := x, log_random_uuid := y\<rparr>) s documentId file notes)
     = fst (uploadDocumentVersion e s documentId file notes)"
    by (simp add: uploadDocumentVersion_fst upload_and_insert_fst storage_upload_log_env
          latest_versions_log_env split: option.split prod.split)
  show ?thesis
    using quiet up
    by (simp add: logActivity_returned createDocument_fst addComment_fst requestApproval_fst
          updateApprovalStatus_fst shareDocument_fst split: option.split)
qed

theorem activity_failure_not_propagated_witness:
  "snd (logActivity (session None) example_db ''d1'' ''document_created'' None) = example_db \<and>
   fst (createDocument
          ((session (Some ''alice''))\<lparr>log_insert_error := Some (RequestFailed ''offline''),
                                      log_random_uuid := ''g9''\<rparr>)
          example_db ''Plan'' None)
     = fst (createDocument (session (Some ''alice'')) example_db ''Plan'' None)"
proof -
  have n: "auth_user (session None) = None \<or> log_insert_error (session None) \<noteq> None"
    by (simp add: session_def)
  have a: "snd (logActivity (session None) example_db ''d1'' ''document_created'' None)
             = example_db"
    using n activity_failure_not_propagated
         [where e = "session None" and s = example_db and d = "''d1''"
            and a = "''document_created''" and det = None,
          THEN conjunct2, THEN conjunct1]
    by (rule rev_mp)
  have b: "fst (createDocument
          ((session (Some ''alice''))\<lparr>log_insert_error := Some (RequestFailed ''offline''),
                                      log_random_uuid := ''g9''\<rparr>)
          example_db ''Plan'' None)
     = fst (createDocument (session (Some ''alice'')) example_db ''Plan'' None)"
    by (rule activity_failure_not_propagated
         [where e = "session (Some ''alice'')" and s = example_db
            and x = "Some (RequestFailed ''offline'')" and y = "''g9''"
            and title = "''Plan''" and description = None,
          THEN conjunct2, THEN conjunct2, THEN conjunct1])
  show ?thesis by (rule conjI [OF a b])
qed

subsection \<open>C10: the comment is stored whole, its preview cut at 50\<close>

text \<open>
  C10. When \<open>addComment\<close> succeeds, the stored comment has the full content, and the
  activity entry \<open>comment_added\<close>, if it is written, carries \<open>take 50 content\<close>: the
  first 50 characters, the whole content when it is no longer than that. The entry is
  written whenever its insert request does not fail and its id is new.
\<close>

theorem comment_preview_truncated:
  assumes "fst (addComment e s documentId content versionId parentId) = Returned (Some c, None)"
  shows "c_content c = content \<and>
         comments (snd (addComment e s documentId content versionId parentId)) = comments s @ [c] \<and>
         (activity_logs (snd (addComment e s documentId content versionId parentId))
            = activity_logs s \<or>
          activity_logs (snd (addComment e s documentId content versionId parentId))
            = activity_logs s @
               [\<lparr>l_id = log_random_uuid e, l_document_id = documentId,
                 l_user_id = c_created_by c, l_action = ''comment_added'',
                 l_details = Some (JObject [(''content'', JString (take 50 content))]),
                 l_created_at = now e\<rparr>]) \<and>
         (log_insert_error e = None \<and> log_random_uuid e \<notin> set (map l_id (activity_logs s)) \<longrightarrow>
          activity_logs (snd (addComment e s documentId content versionId parentId))
            \<noteq> activity_logs s) \<and>
         (length content \<le> 50 \<longrightarrow> take 50 content = content)"
proof -
  let ?det = "Some (JObject [(''content'', JString (take 50 content))])"
  let ?s1 = "s\<lparr>comments := comments s @ [c]\<rparr>"
  let ?s' = "snd (addComment e s documentId content versionId parentId)"
  from addComment_Some [OF assms] obtain u where
    u: "auth_user e = Some u" "u \<in> set (users s)" and cu: "c_created_by c = u"
    and cc: "c_content c = content" and doc: "documentId \<in> set (map d_id (documents s))"
    and s': "?s' = snd (logActivity e ?s1 documentId ''comment_added'' ?det)"
    by auto
  have comments: "comments ?s' = comments s @ [c]"
    by (simp add: s' logActivity_other_fields)
  have logs: "activity_logs ?s' = activity_logs s \<or>
          activity_logs ?s' = activity_logs s @
            [\<lparr>l_id = log_random_uuid e, l_document_id = documentId, l_user_id = c_created_by c,
              l_action = ''comment_added'', l_details = ?det, l_created_at = now e\<rparr>]"
    using logActivity_state [of e ?s1 documentId "''comment_added''" ?det] u cu
    unfolding s' by auto
  have written: "activity_logs ?s' \<noteq> activity_logs s"
    if "log_insert_error e = None" "log_random_uuid e \<notin> set (map l_id (activity_logs s))"
    using logActivity_written [of e u ?s1 documentId "''comment_added''" ?det] u doc that
    unfolding s' by simp
  show ?thesis using cc comments logs written by simp
qed

theorem comment_preview_truncated_witness:
  "fst (addComment (session (Some ''alice'')) example_db ''d1'' long_comment None None) =
     Returned (Some \<lparr>c_id = ''r9'', c_document_id = ''d1'', c_version_id = None,
                     c_content = long_comment, c_created_by = ''alice'', c_created_at = 9,
                     c_updated_at = 9, c_parent_id = None\<rparr>, None) \<and>
   activity_logs (snd (addComment (session (Some ''alice'')) example_db ''d1'' long_comment None None)) =
     [\<lparr>l_id = ''g9'', l_document_id = ''d1'', l_user_id = ''alice'', l_action = ''comment_added'',
       l_details = Some (JObject [(''content'',
          JString ''Please check section 4.3 again: the numbering of v'')]),
       l_created_at = 9\<rparr>]"
proof -
  let ?c = "\<lparr>c_id = ''r9'', c_document_id = ''d1'', c_version_id = None,
                     c_content = long_comment, c_created_by = ''alice'', c_created_at = 9,
                     c_updated_at = 9, c_parent_id = None\<rparr>"
  have h: "fst (addComment (session (Some ''alice'')) example_db ''d1'' long_comment None None) =
     Returned (Some ?c, None)"
    by code_simp
  have e: "log_insert_error (session (Some ''alice'')) = None"
    "log_random_uuid (session (Some ''alice'')) = ''g9''" "now (session (Some ''alice'')) = 9"
    by (simp_all add: session_def)
  have l: "activity_logs example_db = []" by (simp add: example_db_def)
  have t: "take 50 long_comment = ''Please check section 4.3 again: the numbering of v''"
    by (simp add: long_comment_def)
  from comment_preview_truncated [OF h] show ?thesis
    using h by (auto simp: e l t)
qed

subsection \<open>C7: without a session five operations throw\<close>




subsection \<open>C6: the storage path\<close>

text \<open>The last piece of \<open>name.split('.')\<close> is what follows the last dot of the name,
  and the whole name when it has no dot.\<close>

lemma js_split_not_Nil: "js_split sep xs \<noteq> []"
  by (induction xs) (auto split: list.split)

lemma js_split_no_sep: "sep \<notin> set xs \<Longrightarrow> js_split sep xs = [xs]"
  by (induction xs) auto

lemma js_split_sep: "sep \<in> set xs \<Longrightarrow> 2 \<le> length (js_split sep xs)"
proof (induction xs)
  case Nil
  then show ?case by simp
next
  case (Cons c cs)
  show ?case
  proof (cases "c = sep")
    case True
    then show ?thesis using js_split_not_Nil [of sep cs]
      by (cases "js_split sep cs") auto
  next
    case False
    with Cons show ?thesis by (auto split: list.split)
  qed
qed

lemma last_js_split:
  "last (js_split sep xs) = rev (takeWhile (\<lambda>c. c \<noteq> sep) (rev xs))"
proof (induction xs)
  case Nil
  then show ?case by simp
next
  case (Cons c cs)
  show ?case
  proof (cases "c = sep")
    case True
    then show ?thesis
      using Cons js_split_not_Nil [of sep cs] by (simp add: takeWhile_append)
  next
    case False
    show ?thesis
    proof (cases "sep \<in> set cs")
      case True
      from js_split_sep [OF True] obtain w w' ws where w: "js_split sep cs = w # w' # ws"
        by (cases "js_split sep cs"; cases "tl (js_split sep cs)") auto
      with Cons False True show ?thesis
        by (auto simp: takeWhile_append)
    next
      case no: False
      with False show ?thesis
        by (simp add: js_split_no_sep takeWhile_append)
    qed
  qed
qed

lemma fileExt_eq: "fileExt name = rev (takeWhile (\<lambda>c. c \<noteq> CHR ''.'') (rev name))"
  using js_split_not_Nil [of "CHR ''.''" name]
  by (simp add: fileExt_def js_pop_def last_js_split)

lemma storage_upload_cases:
  "storage_upload e p f s
     = (None, s\<lparr>storage_objects := storage_objects s @ [(object_name e p, f)]\<rparr>) \<or>
   (\<exists>err. storage_upload e p f s = (Some err, s))"
  by (simp add: storage_upload_def split: option.split)

lemma insert_document_version_Some:
  assumes "fst (insert_document_version u row s) = (Some v, None)"
  shows "v = row"
    "snd (insert_document_version u row s)
       = s\<lparr>document_versions := document_versions s @ [row]\<rparr>"
    "document_versions_insert_check u s row"
    "(v_document_id row, v_version_number row)
       \<notin> set (map (\<lambda>v. (v_document_id v, v_version_number v)) (document_versions s))"
    "v_uploaded_by row \<in> set (users s)"
  using assms by (auto simp: insert_document_version_def split: if_splits)

lemma insert_document_version_failed:
  "fst (insert_document_version u row s) \<noteq> (Some row, None) \<Longrightarrow>
   snd (insert_document_version u row s) = s
   \<and> (\<exists>err. fst (insert_document_version u row s) = (None, Some err))"
  by (simp add: insert_document_version_def split: if_splits)

text \<open>A successful upload: the object is stored, the row is the one the function
  builds, the insert admitted it, and only the activity entry may follow.\<close>

lemma upload_and_insert_Some:
  assumes "fst (upload_and_insert e s documentId file notes user_id next path)
             = Returned (Some v, None)"
  defines "s1 \<equiv> s\<lparr>storage_objects := storage_objects s @ [(object_name e path, file)]\<rparr>"
  shows "storage_upload e path file s = (None, s1)"
    and "v = \<lparr>v_id = gen_random_uuid e, v_document_id = documentId,
              v_version_number = next, v_file_path = path,
              v_file_name = f_name file, v_file_size = f_size file,
              v_mime_type = f_type file, v_uploaded_by = user_id,
              v_created_at = now e, v_notes = notes\<rparr>"
    and "fst (insert_document_version (auth_user e) v s1) = (Some v, None)"
    and "snd (upload_and_insert e s documentId file notes user_id next path)
           = snd (logActivity e (s1\<lparr>document_versions := document_versions s1 @ [v]\<rparr>)
                    documentId ''version_uploaded''
                    (Some (JObject [(''version'', JNumber next),
                                    (''fileName'', JString (f_name file))])))"
proof -
  let ?row = "\<lparr>v_id = gen_random_uuid e, v_document_id = documentId,
              v_version_number = next, v_file_path = path,
              v_file_name = f_name file, v_file_size = f_size file,
              v_mime_type = f_type file, v_uploaded_by = user_id,
              v_created_at = now e, v_notes = notes\<rparr>"
  from assms(1) storage_upload_cases [of e path "file" s]
  show up: "storage_upload e path file s = (None, s1)"
    by (auto simp: upload_and_insert_fst s1_def)
  with assms(1) have ins: "fst (insert_document_version (auth_user e) ?row s1) = (Some v, None)"
    by (simp add: upload_and_insert_fst)
  from insert_document_version_Some(1) [OF ins] show v: "v = ?row" .
  from ins v show "fst (insert_document_version (auth_user e) v s1) = (Some v, None)"
    by simp
  from insert_document_version_Some(2) [OF ins] ins v up
  show "snd (upload_and_insert e s documentId file notes user_id next path)
           = snd (logActivity e (s1\<lparr>document_versions := document_versions s1 @ [v]\<rparr>)
                    documentId ''version_uploaded''
                    (Some (JObject [(''version'', JNumber next),
                                    (''fileName'', JString (f_name file))])))"
    by (cases "insert_document_version (auth_user e) ?row s1")
       (simp add: upload_and_insert_def then_return_logActivity)
qed

lemma uploadDocumentVersion_Some:
  assumes "fst (uploadDocumentVersion e s documentId file notes) = Returned (Some v, None)"
  shows "\<exists>u. auth_user e = Some u \<and>
           uploadDocumentVersion e s documentId file notes
             = upload_and_insert e s documentId file notes u
                 (nextVersion (latest_versions e s documentId))
                 (filePath documentId (uuid_v4 e) (f_name file))"
  using assms by (cases "auth_user e") (simp_all add: uploadDocumentVersion_def)

text \<open>
  C6, as the code has it. For a successful upload of a file whose name has a dot,
  \<open>file_path\<close> of the version row is \<open>documentId/token.ext\<close>, where \<open>ext\<close> is taken
  from the original file name: what follows its last dot. The original file name and the
  declared media type are stored in \<open>file_name\<close> and \<open>mime_type\<close> of the version
  row, and \<open>file_path\<close> is the path that was handed to the storage upload, which
  succeeded. (For a name without a dot, and on the name under which the service files
  the object, nothing is said.)
\<close>

theorem storage_path_keeps_extension:
  assumes "fst (uploadDocumentVersion e s documentId file notes) = Returned (Some v, None)"
  shows "(CHR ''.'' \<in> set (f_name file) \<longrightarrow>
            v_file_path v = documentId @ ''/'' @ uuid_v4 e @ ''.'' @
                            rev (takeWhile (\<lambda>c. c \<noteq> CHR ''.'') (rev (f_name file)))) \<and>
         v_file_name v = f_name file \<and> v_mime_type v = f_type file \<and>
         fst (storage_upload e (v_file_path v) file s) = None"
proof -
  let ?p = "filePath documentId (uuid_v4 e) (f_name file)"
  let ?n = "nextVersion (latest_versions e s documentId)"
  from uploadDocumentVersion_Some [OF assms] obtain u where
    eq: "uploadDocumentVersion e s documentId file notes
           = upload_and_insert e s documentId file notes u ?n ?p"
    by blast
  with assms have ok: "fst (upload_and_insert e s documentId file notes u ?n ?p)
                         = Returned (Some v, None)"
    by simp
  from upload_and_insert_Some(2) [OF ok]
  have v: "v_file_path v = ?p" "v_file_name v = f_name file" "v_mime_type v = f_type file"
    by simp_all
  from upload_and_insert_Some(1) [OF ok] v(1)
  have "fst (storage_upload e (v_file_path v) file s) = None" by simp
  with v show ?thesis
    by (simp add: filePath_def fileName_def fileExt_eq)
qed

theorem storage_path_keeps_extension_witness:
  "CHR ''.'' \<in> set (f_name draft_docx) \<and>
   fst (uploadDocumentVersion (session (Some ''alice'')) example_db ''d1'' draft_docx None)
     = Returned (Some draft_version, None) \<and>
   v_file_path draft_version = ''d1/t9.docx'' \<and>
   v_file_name draft_version = ''draft.final.docx''"
proof -
  have d: "CHR ''.'' \<in> set (f_name draft_docx)" by code_simp
  have h: "fst (uploadDocumentVersion (session (Some ''alice'')) example_db ''d1'' draft_docx
                  None)
             = Returned (Some draft_version, None)"
    by code_simp
  have x: "''d1'' @ ''/'' @ uuid_v4 (session (Some ''alice'')) @ ''.'' @
             rev (takeWhile (\<lambda>c. c \<noteq> CHR ''.'') (rev (f_name draft_docx))) = ''d1/t9.docx''"
    by code_simp
  have n: "f_name draft_docx = ''draft.final.docx''" by (simp add: draft_docx_def)
  from storage_path_keeps_extension [OF h, THEN conjunct1, THEN mp, OF d]
  have 1: "v_file_path draft_version = ''d1/t9.docx''" unfolding x .
  from storage_path_keeps_extension [OF h, THEN conjunct2, THEN conjunct1]
  have 2: "v_file_name draft_version = ''draft.final.docx''" unfolding n .
  show ?thesis by (rule conjI [OF d conjI [OF h conjI [OF 1 2]]])
qed

text \<open>C6 as stated fails: the path of the version uploaded from \<open>spec.pdf\<close> ends in
  \<open>pdf\<close>, and for the same document and token another name gives another path.\<close>

theorem storage_path_keeps_extension_counterexample:
  "fst (uploadDocumentVersion (session (Some ''alice'')) example_db ''d1'' spec_pdf None)
     = Returned (Some \<lparr>v_id = ''r9'', v_document_id = ''d1'', v_version_number = 3,
                       v_file_path = ''d1/t9.pdf'', v_file_name = ''spec.pdf'',
                       v_file_size = 1024, v_mime_type = ''application/pdf'',
                       v_uploaded_by = ''alice'', v_created_at = 9, v_notes = None\<rparr>, None) \<and>
   filePath ''d1'' ''t9'' ''spec.pdf'' = ''d1/t9.pdf'' \<and>
   filePath ''d1'' ''t9'' ''spec.txt'' = ''d1/t9.txt''"
  by code_simp

subsection \<open>C4: resolving an approval\<close>

lemma filter_key_distinct:
  "distinct (map f xs) \<Longrightarrow> a \<in> set xs \<Longrightarrow>
   filter (\<lambda>x. f x = f a \<and> P x) xs = (if P a then [a] else [])"
proof (induction xs)
  case Nil
  then show ?case by simp
next
  case (Cons x xs)
  show ?case
  proof (cases "x = a")
    case True
    from Cons.prems(1) have "\<forall>y \<in> set xs. f y \<noteq> f x" by (auto simp: image_iff)
    then have "filter (\<lambda>y. f y = f x \<and> P y) xs = []" by (simp add: filter_empty_conv)
    with True show ?thesis by simp
  next
    case False
    with Cons.prems have a: "a \<in> set xs" and "f x \<noteq> f a" by (auto simp: image_iff)
    with Cons show ?thesis by simp
  qed
qed

lemma filter_singletonD:
  assumes "filter P xs = [a]"
  shows "a \<in> set xs \<and> P a"
proof -
  have "a \<in> set (filter P xs)" using assms by simp
  then show ?thesis by simp
qed

lemma update_approval_eq:
  "update_approval u approvalId status notes t s =
     (case filter (\<lambda>a. a_id a = approvalId \<and> approvals_select u s a
                        \<and> approvals_update_policy u a) (approvals s) of
        [a] \<Rightarrow> ((Some (resolved status notes t a), None),
                 s\<lparr>approvals :=
                     map (\<lambda>a. if a_id a = approvalId \<and> approvals_select u s a
                                   \<and> approvals_update_policy u a
                               then resolved status notes t a else a) (approvals s)\<rparr>)
      | _ \<Rightarrow> ((None, Some NoRows), s))"
proof -
  have "\<not> (\<exists>a \<in> set (map (resolved status notes t)
                (filter (\<lambda>a. a_id a = approvalId \<and> approvals_select u s a
                        \<and> approvals_update_policy u a) (approvals s))).
             \<not> (approvals_update_policy u a \<and> approvals_select u s a))"
    by (auto simp: resolved_def approvals_update_policy_def approvals_select_def)
  then show ?thesis
    unfolding update_approval_def Let_def
    by (simp split: list.split)
qed

lemma update_approval_Some:
  assumes "fst (update_approval u approvalId status notes t s) = (Some a', None)"
  shows "\<exists>a \<in> set (approvals s). a_id a = approvalId \<and> u = Some (a_assigned_to a) \<and>
           a' = resolved status notes t a \<and>
           a' \<in> set (approvals (snd (update_approval u approvalId status notes t s)))"
proof -
  let ?hit = "\<lambda>a. a_id a = approvalId \<and> approvals_select u s a \<and> approvals_update_policy u a"
  from assms obtain a where f: "filter ?hit (approvals s) = [a]"
    and a': "a' = resolved status notes t a"
    by (auto simp: update_approval_eq split: list.splits)
  from filter_singletonD [OF f] have a: "a \<in> set (approvals s)" "?hit a" by simp_all
  from a have "a' \<in> set (approvals (snd (update_approval u approvalId status notes t s)))"
    by (auto simp: update_approval_eq f a' image_iff intro!: bexI [of _ a])
  with a a' show ?thesis by (auto simp: approvals_update_policy_def)
qed

lemma update_approval_assignee:
  assumes "distinct (map a_id (approvals s))" "a \<in> set (approvals s)"
    "u = Some (a_assigned_to a)"
  shows "fst (update_approval u (a_id a) status notes t s)
           = (Some (resolved status notes t a), None)"
proof -
  have "approvals_select u s a \<and> approvals_update_policy u a"
    using assms(3) by (simp add: approvals_select_def approvals_update_policy_def)
  with filter_key_distinct [OF assms(1,2),
         of "\<lambda>a. approvals_select u s a \<and> approvals_update_policy u a"]
  show ?thesis by (simp add: update_approval_eq)
qed

lemma update_approval_other:
  assumes "\<forall>a \<in> set (approvals s). a_id a = approvalId \<longrightarrow> u \<noteq> Some (a_assigned_to a)"
  shows "update_approval u approvalId status notes t s = ((None, Some NoRows), s)"
proof -
  have "filter (\<lambda>a. a_id a = approvalId \<and> approvals_select u s a
                        \<and> approvals_update_policy u a) (approvals s) = []"
    using assms by (auto simp: filter_empty_conv approvals_update_policy_def)
  then show ?thesis by (simp add: update_approval_eq)
qed

lemma updateApprovalStatus_snd:
  "approvals (snd (updateApprovalStatus e s approvalId status notes))
     = approvals (snd (update_approval (auth_user e) approvalId status notes (now e) s))"
  by (cases "update_approval (auth_user e) approvalId status notes (now e) s")
     (auto simp: updateApprovalStatus_def then_return_logActivity logActivity_other_fields
           split: option.split)

text \<open>
  C4, as the code has it. \<open>updateApprovalStatus\<close> succeeds only when the session is
  that of the assignee of the approval, and then the stored row has the new status. It
  never looks at the stored status: for the assignee it succeeds on every approval,
  pending or not, and overwrites status and \<open>updated_at\<close> (and \<open>notes\<close> when given).
  For a session of anyone else (or none) no row is updated: the result is the error of
  \<open>.single()\<close>, and the table is unchanged.
\<close>

theorem approval_update_unguarded:
  "(fst (updateApprovalStatus e s approvalId status notes) = Returned (Some a', None) \<longrightarrow>
      (\<exists>a \<in> set (approvals s). a_id a = approvalId \<and> auth_user e = Some (a_assigned_to a)) \<and>
      a_status a' = status \<and>
      a' \<in> set (approvals (snd (updateApprovalStatus e s approvalId status notes)))) \<and>
   (distinct (map a_id (approvals s)) \<and> a \<in> set (approvals s) \<and>
    auth_user e = Some (a_assigned_to a) \<longrightarrow>
      fst (updateApprovalStatus e s (a_id a) status notes)
        = Returned (Some (a\<lparr>a_status := status,
                              a_notes := (case notes of None \<Rightarrow> a_notes a | Some n \<Rightarrow> Some n),
                              a_updated_at := now e\<rparr>), None)) \<and>
   ((\<forall>a \<in> set (approvals s). a_id a = approvalId \<longrightarrow> auth_user e \<noteq> Some (a_assigned_to a)) \<longrightarrow>
      fst (updateApprovalStatus e s approvalId status notes) = Returned (None, Some NoRows) \<and>
      approvals (snd (updateApprovalStatus e s approvalId status notes)) = approvals s)"
proof (intro conjI impI)
  assume ok: "fst (updateApprovalStatus e s approvalId status notes) = Returned (Some a', None)"
  then have "fst (update_approval (auth_user e) approvalId status notes (now e) s)
               = (Some a', None)"
    by (simp add: updateApprovalStatus_fst)
  from update_approval_Some [OF this] obtain a where
    a: "a \<in> set (approvals s)" "a_id a = approvalId" "auth_user e = Some (a_assigned_to a)"
       "a' = resolved status notes (now e) a"
       "a' \<in> set (approvals (snd (update_approval (auth_user e) approvalId status notes (now e) s)))"
    by blast
  from a(1,2,3) show "\<exists>a \<in> set (approvals s). a_id a = approvalId
                        \<and> auth_user e = Some (a_assigned_to a)"
    by blast
  from a(4) show "a_status a' = status" by (simp add: resolved_def)
  from a(5) show "a' \<in> set (approvals (snd (updateApprovalStatus e s approvalId status notes)))"
    by (simp add: updateApprovalStatus_snd)
next
  assume "distinct (map a_id (approvals s)) \<and> a \<in> set (approvals s) \<and>
          auth_user e = Some (a_assigned_to a)"
  then show "fst (updateApprovalStatus e s (a_id a) status notes)
        = Returned (Some (a\<lparr>a_status := status,
                              a_notes := (case notes of None \<Rightarrow> a_notes a | Some n \<Rightarrow> Some n),
                              a_updated_at := now e\<rparr>), None)"
    by (simp add: updateApprovalStatus_fst update_approval_assignee resolved_def)
next
  assume other: "\<forall>a \<in> set (approvals s). a_id a = approvalId
                   \<longrightarrow> auth_user e \<noteq> Some (a_assigned_to a)"
  show "fst (updateApprovalStatus e s approvalId status notes) = Returned (None, Some NoRows)"
    by (simp add: updateApprovalStatus_fst update_approval_other [OF other])
  show "approvals (snd (updateApprovalStatus e s approvalId status notes)) = approvals s"
    by (simp add: updateApprovalStatus_snd update_approval_other [OF other])
qed

theorem approval_update_unguarded_witness:
  "fst (updateApprovalStatus (session (Some ''bob'')) example_db (a_id bobs_approval)
          Rejected (Some ''second thoughts''))
     = Returned (Some (bobs_approval\<lparr>a_status := Rejected,
                                      a_notes := Some ''second thoughts'',
                                      a_updated_at := now (session (Some ''bob''))\<rparr>), None) \<and>
   fst (updateApprovalStatus (session (Some ''carol'')) example_db ''a1'' Rejected None)
     = Returned (None, Some NoRows)"
proof -
  have h: "distinct (map a_id (approvals example_db)) \<and>
           bobs_approval \<in> set (approvals example_db) \<and>
           auth_user (session (Some ''bob'')) = Some (a_assigned_to bobs_approval)"
    by (simp add: example_db_def session_def bobs_approval_def)
  have o: "\<forall>a \<in> set (approvals example_db).
             a_id a = ''a1'' \<longrightarrow> auth_user (session (Some ''carol'')) \<noteq> Some (a_assigned_to a)"
    by (simp add: example_db_def session_def bobs_approval_def)
  from approval_update_unguarded
         [where e = "session (Some ''bob'')" and s = example_db and a = bobs_approval
            and status = Rejected and ?notes = "Some ''second thoughts''",
          THEN conjunct2, THEN conjunct1, THEN mp, OF h]
  have 1: "fst (updateApprovalStatus (session (Some ''bob'')) example_db (a_id bobs_approval)
          Rejected (Some ''second thoughts''))
     = Returned (Some (bobs_approval\<lparr>a_status := Rejected,
                                      a_notes := Some ''second thoughts'',
                                      a_updated_at := now (session (Some ''bob''))\<rparr>), None)"
    by simp
  from approval_update_unguarded
         [where e = "session (Some ''carol'')" and s = example_db and approvalId = "''a1''"
            and status = Rejected and ?notes = None,
          THEN conjunct2, THEN conjunct2, THEN mp, OF o]
  have 2: "fst (updateApprovalStatus (session (Some ''carol'')) example_db ''a1'' Rejected None)
     = Returned (None, Some NoRows)"
    by simp
  show ?thesis by (rule conjI [OF 1 2])
qed

text \<open>C4 as stated fails: bob, the assignee, rejects the approval he has already
  approved; the call succeeds and the stored status changes.\<close>

theorem approval_update_unguarded_counterexample:
  "fst (updateApprovalStatus (session (Some ''bob'')) example_db ''a1'' Rejected None)
     = Returned (Some \<lparr>a_id = ''a1'', a_document_id = ''d1'', a_version_id = None,
                       a_requested_by = ''alice'', a_assigned_to = ''bob'',
                       a_status = Rejected, a_notes = None, a_created_at = 4,
                       a_updated_at = 9\<rparr>, None) \<and>
   map a_status (approvals example_db) = [Approved] \<and>
   map a_status
     (approvals (snd (updateApprovalStatus (session (Some ''bob'')) example_db ''a1''
                        Rejected None)))
     = [Rejected]"
  by code_simp

subsection \<open>C1: the next version number\<close>

lemma sorted_last_Max:
  fixes ws :: "int list"
  shows "sorted ws \<Longrightarrow> ws \<noteq> [] \<Longrightarrow> last ws = Max (set ws)"
proof (induction ws)
  case Nil
  then show ?case by simp
next
  case (Cons x ys)
  show ?case
  proof (cases "ys = []")
    case True
    then show ?thesis by simp
  next
    case False
    with Cons have l: "last ys = Max (set ys)" and le: "\<forall>y \<in> set ys. x \<le> y" by auto
    from False have "last ys \<in> set ys" by simp
    with le have "x \<le> Max (set ys)" using l by auto
    with False l show ?thesis by (simp add: max_absorb2)
  qed
qed

lemma rev_sort_key_Max:
  fixes f :: "'a \<Rightarrow> int"
  assumes "xs \<noteq> []"
  shows "\<exists>y ys. rev (sort_key f xs) = y # ys \<and> f y = Max (f ` set xs)"
proof -
  let ?zs = "sort_key f xs"
  from assms have ne: "?zs \<noteq> []"
    by (metis set_sort set_empty)
  have "f (last ?zs) = last (map f ?zs)" using ne by (simp add: last_map)
  also have "\<dots> = Max (set (map f ?zs))"
    using ne by (intro sorted_last_Max) (simp_all add: sorted_sort_key)
  finally have "f (last ?zs) = Max (f ` set xs)" by simp
  moreover from ne have "rev ?zs = last ?zs # rev (butlast ?zs)"
    by (metis append_butlast_last_id rev.simps(2) rev_rev_ident rev_swap rev_append append_Cons append_Nil)
  ultimately show ?thesis by blast
qed

lemma nextVersion_take1:
  fixes xs :: "document_version list"
  shows "nextVersion (Some (take 1 (rev (sort_key v_version_number xs)))) =
           (if xs = [] then 1 else 1 + Max (v_version_number ` set xs))"
proof (cases "xs = []")
  case True
  then show ?thesis by (simp add: nextVersion_def)
next
  case False
  from rev_sort_key_Max [OF False, of v_version_number] obtain y ys where
    "rev (sort_key v_version_number xs) = y # ys" "v_version_number y = Max (v_version_number ` set xs)"
    by blast
  with False show ?thesis by (simp add: nextVersion_def)
qed

lemma own_document_ids_iff:
  "documentId \<in> set (own_document_ids (Some u) s) \<longleftrightarrow> is_owner s u documentId"
  by (auto simp: own_document_ids_def is_owner_def documents_select_def
        users_can_read_own_documents_def)

lemma own_document_ids_None: "own_document_ids None s = []"
  by (simp add: own_document_ids_def)

lemma public_document_ids_iff:
  "documentId \<in> set (public_document_ids (Some u) s) \<longleftrightarrow>
     (\<exists>d \<in> set (documents s). d_id d = documentId \<and> d_is_public d)"
  by (auto simp: public_document_ids_def documents_select_def
        users_can_read_public_documents_def)

lemma document_versions_insert_check_iff:
  "document_versions_insert_check (Some u) s v \<longleftrightarrow>
     is_owner s u (v_document_id v) \<and> v_uploaded_by v = u"
  by (auto simp: document_versions_insert_check_def own_document_ids_iff)

lemma document_versions_select_owner:
  "is_owner s u (v_document_id v) \<Longrightarrow> document_versions_select (Some u) s v"
  by (simp add: document_versions_select_def own_document_ids_iff)

lemma is_owner_storage [simp]:
  "is_owner (s\<lparr>storage_objects := x\<rparr>) u d = is_owner s u d"
  by (simp add: is_owner_def)

lemma latest_versions_owner:
  assumes "auth_user e = Some u" "is_owner s u documentId" "versions_query_error e = None"
  shows "latest_versions e s documentId
           = Some (take 1 (rev (sort_key v_version_number (versions_of s documentId))))"
proof -
  have "filter (\<lambda>v. v_document_id v = documentId \<and> document_versions_select (auth_user e) s v)
          (document_versions s) = versions_of s documentId"
    unfolding versions_of_def using assms(1,2)
    by (intro filter_cong) (auto simp: document_versions_select_owner)
  with assms(3) show ?thesis by (simp add: latest_versions_def)
qed

text \<open>A successful upload, in terms of the database.\<close>

lemma uploadDocumentVersion_success:
  assumes "fst (uploadDocumentVersion e s documentId file notes) = Returned (Some v, None)"
  shows "\<exists>u. auth_user e = Some u \<and> is_owner s u documentId \<and>
           v_document_id v = documentId \<and>
           v_version_number v = nextVersion (latest_versions e s documentId) \<and>
           (documentId, v_version_number v)
              \<notin> set (map (\<lambda>v. (v_document_id v, v_version_number v)) (document_versions s)) \<and>
           document_versions (snd (uploadDocumentVersion e s documentId file notes))
              = document_versions s @ [v]"
proof -
  let ?p = "filePath documentId (uuid_v4 e) (f_name file)"
  let ?n = "nextVersion (latest_versions e s documentId)"
  let ?s1 = "s\<lparr>storage_objects := storage_objects s @ [(object_name e ?p, file)]\<rparr>"
  from uploadDocumentVersion_Some [OF assms] obtain u where
    u: "auth_user e = Some u" and
    eq: "uploadDocumentVersion e s documentId file notes
           = upload_and_insert e s documentId file notes u ?n ?p"
    by blast
  with assms have ok: "fst (upload_and_insert e s documentId file notes u ?n ?p)
                         = Returned (Some v, None)"
    by simp
  note inv = upload_and_insert_Some [OF ok]
  from inv(2) have v: "v_document_id v = documentId" "v_version_number v = ?n"
    "v_uploaded_by v = u" by simp_all
  from insert_document_version_Some(3,4) [OF inv(3)] u v
  have own: "is_owner s u documentId"
    and fresh: "(documentId, v_version_number v)
              \<notin> set (map (\<lambda>v. (v_document_id v, v_version_number v)) (document_versions s))"
    by (simp_all add: document_versions_insert_check_iff)
  have "document_versions (snd (uploadDocumentVersion e s documentId file notes))
              = document_versions s @ [v]"
    unfolding eq inv(4) by (simp add: logActivity_other_fields)
  with u own v fresh show ?thesis by blast
qed

lemma uploadDocumentVersion_failure:
  assumes "\<not> (\<exists>v. fst (uploadDocumentVersion e s documentId file notes)
                     = Returned (Some v, None))"
  shows "document_versions (snd (uploadDocumentVersion e s documentId file notes))
           = document_versions s"
proof (cases "auth_user e")
  case None
  then show ?thesis by (simp add: uploadDocumentVersion_def)
next
  case (Some u)
  let ?p = "filePath documentId (uuid_v4 e) (f_name file)"
  let ?n = "nextVersion (latest_versions e s documentId)"
  let ?row = "\<lparr>v_id = gen_random_uuid e, v_document_id = documentId,
              v_version_number = ?n, v_file_path = ?p,
              v_file_name = f_name file, v_file_size = f_size file,
              v_mime_type = f_type file, v_uploaded_by = u,
              v_created_at = now e, v_notes = notes\<rparr>"
  let ?s1 = "s\<lparr>storage_objects := storage_objects s @ [(object_name e ?p, file)]\<rparr>"
  from storage_upload_cases [of e ?p "file" s] show ?thesis
  proof
    assume up: "storage_upload e ?p file s = (None, ?s1)"
    with assms Some have "fst (insert_document_version (Some u) ?row ?s1) \<noteq> (Some ?row, None)"
      by (auto simp: uploadDocumentVersion_fst upload_and_insert_fst)
    from insert_document_version_failed [OF this] obtain err where
      "insert_document_version (Some u) ?row ?s1 = ((None, Some err), ?s1)"
      by (auto simp: prod_eq_iff)
    with up Some show ?thesis
      by (simp add: uploadDocumentVersion_def upload_and_insert_def)
  next
    assume "\<exists>err. storage_upload e ?p file s = (Some err, s)"
    with Some show ?thesis
      by (auto simp: uploadDocumentVersion_def upload_and_insert_def)
  qed
qed


lemma upload_and_insert_documents:
  "documents (snd (upload_and_insert e s documentId file notes u n p)) = documents s"
proof (cases "\<exists>v. fst (upload_and_insert e s documentId file notes u n p) = Returned (Some v, None)")
  case True
  then obtain v where ok: "fst (upload_and_insert e s documentId file notes u n p)
                             = Returned (Some v, None)" by blast
  show ?thesis unfolding upload_and_insert_Some(4) [OF ok]
    by (simp add: logActivity_other_fields)
next
  case False
  let ?row = "\<lparr>v_id = gen_random_uuid e, v_document_id = documentId,
              v_version_number = n, v_file_path = p,
              v_file_name = f_name file, v_file_size = f_size file,
              v_mime_type = f_type file, v_uploaded_by = u,
              v_created_at = now e, v_notes = notes\<rparr>"
  let ?s1 = "s\<lparr>storage_objects := storage_objects s @ [(object_name e p, file)]\<rparr>"
  from storage_upload_cases [of e p "file" s] show ?thesis
  proof
    assume up: "storage_upload e p file s = (None, ?s1)"
    with False have "fst (insert_document_version (auth_user e) ?row ?s1) \<noteq> (Some ?row, None)"
      by (auto simp: upload_and_insert_fst)
    from insert_document_version_failed [OF this] obtain err where
      "insert_document_version (auth_user e) ?row ?s1 = ((None, Some err), ?s1)"
      by (auto simp: prod_eq_iff)
    with up show ?thesis by (simp add: upload_and_insert_def)
  next
    assume "\<exists>err. storage_upload e p file s = (Some err, s)"
    then show ?thesis by (auto simp: upload_and_insert_def)
  qed
qed

lemma uploadDocumentVersion_documents:
  "documents (snd (uploadDocumentVersion e s documentId file notes)) = documents s"
  by (cases "auth_user e") (simp_all add: uploadDocumentVersion_def upload_and_insert_documents)

lemma is_owner_cong: "documents s' = documents s \<Longrightarrow> is_owner s' u d = is_owner s u d"
  by (simp add: is_owner_def)

lemma insert_document_version_conflict:
  assumes "is_owner s u (v_document_id row)" "v_uploaded_by row = u"
    "(v_document_id row, v_version_number row)
       \<in> set (map (\<lambda>v. (v_document_id v, v_version_number v)) (document_versions s))"
  shows "insert_document_version (Some u) row s = ((None, Some UniqueViolation), s)"
  using assms by (simp add: insert_document_version_def document_versions_insert_check_iff)

lemma versions_of_nonempty:
  "versions_of s documentId \<noteq> [] \<Longrightarrow>
   \<exists>w \<in> set (document_versions s). v_document_id w = documentId"
  by (auto simp: versions_of_def filter_empty_conv)

lemma next_version_of_success:
  assumes ok: "fst (uploadDocumentVersion e s documentId file notes) = Returned (Some v, None)"
    and one: "ledger_starts_at_one s \<or> versions_query_error e = None"
  shows "v_version_number v =
           (if versions_of s documentId = [] then 1
            else 1 + Max (set (version_numbers s documentId)))"
proof -
  from uploadDocumentVersion_success [OF ok] obtain u where
    u: "auth_user e = Some u" and own: "is_owner s u documentId"
    and n: "v_version_number v = nextVersion (latest_versions e s documentId)"
    and fresh: "(documentId, v_version_number v)
              \<notin> set (map (\<lambda>v. (v_document_id v, v_version_number v)) (document_versions s))"
    by blast
  show ?thesis
  proof (cases "versions_query_error e")
    case None
    from latest_versions_owner [OF u own None] n
    have "v_version_number v
            = nextVersion (Some (take 1 (rev (sort_key v_version_number
                                                (versions_of s documentId)))))"
      by simp
    then show ?thesis
      unfolding nextVersion_take1 by (simp add: version_numbers_def)
  next
    case (Some err)
    with n have n1: "v_version_number v = 1"
      by (simp add: latest_versions_def nextVersion_def)
    have "versions_of s documentId = []"
    proof (rule ccontr)
      assume "versions_of s documentId \<noteq> []"
      from versions_of_nonempty [OF this] obtain w where
        w: "w \<in> set (document_versions s)" "v_document_id w = documentId"
        by blast
      with one Some have "1 \<in> set (version_numbers s documentId)"
        by (auto simp: ledger_starts_at_one_def)
      then have "(documentId, 1)
              \<in> set (map (\<lambda>v. (v_document_id v, v_version_number v)) (document_versions s))"
        by (auto simp: version_numbers_def versions_of_def image_iff)
      with fresh n1 show False by simp
    qed
    with n1 show ?thesis by simp
  qed
qed

lemma versions_unique_upload:
  assumes "versions_unique s"
  shows "versions_unique (snd (uploadDocumentVersion e s documentId file notes))"
proof (cases "\<exists>v. fst (uploadDocumentVersion e s documentId file notes) = Returned (Some v, None)")
  case True
  then obtain v where ok: "fst (uploadDocumentVersion e s documentId file notes)
                             = Returned (Some v, None)" by blast
  from uploadDocumentVersion_success [OF ok] assms show ?thesis
    by (auto simp: versions_unique_def)
next
  case False
  from uploadDocumentVersion_failure [OF False] assms show ?thesis
    by (simp add: versions_unique_def)
qed

text \<open>The ledger without rows starts at one and is unique, and every run of
  \<open>uploadDocumentVersion\<close> keeps both.\<close>

lemma empty_ledger:
  "document_versions s = [] \<Longrightarrow> ledger_starts_at_one s \<and> versions_unique s"
  by (simp add: ledger_starts_at_one_def versions_unique_def)

lemma ledger_starts_at_one_upload:
  assumes "ledger_starts_at_one s"
  shows "ledger_starts_at_one (snd (uploadDocumentVersion e s documentId file notes))"
proof (cases "\<exists>v. fst (uploadDocumentVersion e s documentId file notes) = Returned (Some v, None)")
  case True
  then obtain v where ok: "fst (uploadDocumentVersion e s documentId file notes)
                             = Returned (Some v, None)" by blast
  let ?s' = "snd (uploadDocumentVersion e s documentId file notes)"
  from uploadDocumentVersion_success [OF ok]
  have d: "v_document_id v = documentId"
    and dv: "document_versions ?s' = document_versions s @ [v]"
    by blast+
  have mono: "set (version_numbers s x) \<subseteq> set (version_numbers ?s' x)" for x
    by (auto simp: version_numbers_def versions_of_def dv)
  have old: "1 \<in> set (version_numbers ?s' (v_document_id w))" if "w \<in> set (document_versions s)" for w
    using assms that mono by (auto simp: ledger_starts_at_one_def)
  have new: "1 \<in> set (version_numbers ?s' (v_document_id v))"
  proof (cases "versions_of s documentId = []")
    case True
    with next_version_of_success [OF ok disjI1 [OF assms]]
    have "v_version_number v = 1" by simp
    then show ?thesis by (force simp: version_numbers_def versions_of_def dv)
  next
    case False
    from versions_of_nonempty [OF this] obtain w where
      "w \<in> set (document_versions s)" "v_document_id w = documentId"
      by blast
    with old [of w] d show ?thesis by simp
  qed
  show ?thesis
    unfolding ledger_starts_at_one_def dv using old new by auto
next
  case False
  from uploadDocumentVersion_failure [OF False] assms show ?thesis
    by (simp add: ledger_starts_at_one_def version_numbers_def versions_of_def)
qed

text \<open>
  C1. (i) A successful \<open>uploadDocumentVersion\<close> gives the new version the number 1
  when the document has no version, and 1 + the greatest number of its versions
  otherwise. This holds whenever the query for the latest version was answered; when
  that query failed, the number is the fallback 1, and it holds in a ledger that starts
  at one (there the insert of a second number 1 is refused). (ii) If no two version
  rows agree in \<open>(document_id, version_number)\<close> before the call, none do after it.
  (iii) The race:
  one upload has succeeded from the state \<open>s\<close>; a second one by the owner has read
  its number in \<open>s\<close> too, the same number, and now runs its upload and insert in the
  state the first has left. Its storage upload succeeds, its insert fails with the
  uniqueness violation 23505, and no row is added. (iv) At the time the number is
  computed: for the owner, whose query is answered, it is 1 + the greatest number then
  in the ledger (or 1), and a row inserted later, in whatever state \<open>s'\<close>, carries
  the number computed.
\<close>

theorem version_number_next_unique_conflict:
  "((ledger_starts_at_one s \<or> versions_query_error e = None) \<and>
    fst (uploadDocumentVersion e s documentId file notes) = Returned (Some v, None) \<longrightarrow>
      v_document_id v = documentId \<and>
      v_version_number v =
        (if versions_of s documentId = [] then 1
         else 1 + Max (set (version_numbers s documentId)))) \<and>
   (versions_unique s \<longrightarrow>
      versions_unique (snd (uploadDocumentVersion e s documentId file notes))) \<and>
   (fst (uploadDocumentVersion e s documentId file notes) = Returned (Some v, None) \<and>
    auth_user e2 = Some u2 \<and> is_owner s u2 documentId \<and>
    nextVersion (latest_versions e2 s documentId) = v_version_number v \<and>
    fst (storage_upload e2 path2 file2 (snd (uploadDocumentVersion e s documentId file notes)))
      = None \<longrightarrow>
      fst (upload_and_insert e2 (snd (uploadDocumentVersion e s documentId file notes))
             documentId file2 notes2 u2 (nextVersion (latest_versions e2 s documentId)) path2)
        = Returned (None, Some UniqueViolation) \<and>
      document_versions
        (snd (upload_and_insert e2 (snd (uploadDocumentVersion e s documentId file notes))
                documentId file2 notes2 u2 (nextVersion (latest_versions e2 s documentId)) path2))
        = document_versions (snd (uploadDocumentVersion e s documentId file notes))) \<and>
   (auth_user e = Some u \<and> is_owner s u documentId \<and> versions_query_error e = None \<longrightarrow>
      nextVersion (latest_versions e s documentId) =
        (if versions_of s documentId = [] then 1
         else 1 + Max (set (version_numbers s documentId)))) \<and>
   (fst (upload_and_insert e s' documentId file notes u next path) = Returned (Some v, None)
      \<longrightarrow> v_version_number v = next)"
proof (intro conjI impI)
  assume "auth_user e = Some u \<and> is_owner s u documentId \<and> versions_query_error e = None"
  then have "auth_user e = Some u" "is_owner s u documentId" "versions_query_error e = None"
    by simp_all
  then have "latest_versions e s documentId
               = Some (take 1 (rev (sort_key v_version_number (versions_of s documentId))))"
    by (rule latest_versions_owner)
  then have "nextVersion (latest_versions e s documentId)
               = nextVersion (Some (take 1 (rev (sort_key v_version_number
                                                   (versions_of s documentId)))))"
    by simp
  then show "nextVersion (latest_versions e s documentId) =
        (if versions_of s documentId = [] then 1
         else 1 + Max (set (version_numbers s documentId)))"
    unfolding nextVersion_take1 by (simp add: version_numbers_def)
next
  assume "fst (upload_and_insert e s' documentId file notes u next path)
            = Returned (Some v, None)"
  from upload_and_insert_Some(2) [OF this] show "v_version_number v = next" by simp
next
  assume "(ledger_starts_at_one s \<or> versions_query_error e = None) \<and>
    fst (uploadDocumentVersion e s documentId file notes) = Returned (Some v, None)"
  then have one: "ledger_starts_at_one s \<or> versions_query_error e = None"
    and ok: "fst (uploadDocumentVersion e s documentId file notes) = Returned (Some v, None)"
    by simp_all
  from uploadDocumentVersion_success [OF ok] show "v_document_id v = documentId" by blast
  from next_version_of_success [OF ok one]
  show "v_version_number v =
        (if versions_of s documentId = [] then 1
         else 1 + Max (set (version_numbers s documentId)))" .
next
  assume "versions_unique s"
  then show "versions_unique (snd (uploadDocumentVersion e s documentId file notes))"
    by (rule versions_unique_upload)
next
  let ?s1 = "snd (uploadDocumentVersion e s documentId file notes)"
  let ?n = "nextVersion (latest_versions e2 s documentId)"
  let ?row = "\<lparr>v_id = gen_random_uuid e2, v_document_id = documentId,
              v_version_number = ?n, v_file_path = path2,
              v_file_name = f_name file2, v_file_size = f_size file2,
              v_mime_type = f_type file2, v_uploaded_by = u2,
              v_created_at = now e2, v_notes = notes2\<rparr>"
  let ?s2 = "?s1\<lparr>storage_objects := storage_objects ?s1 @ [(object_name e2 path2, file2)]\<rparr>"
  assume race: "fst (uploadDocumentVersion e s documentId file notes) = Returned (Some v, None) \<and>
    auth_user e2 = Some u2 \<and> is_owner s u2 documentId \<and>
    nextVersion (latest_versions e2 s documentId) = v_version_number v \<and>
    fst (storage_upload e2 path2 file2 ?s1) = None"
  then have ok: "fst (uploadDocumentVersion e s documentId file notes) = Returned (Some v, None)"
    and u2: "auth_user e2 = Some u2" and own: "is_owner s u2 documentId"
    and same: "?n = v_version_number v"
    and up: "fst (storage_upload e2 path2 file2 ?s1) = None"
    by simp_all
  from uploadDocumentVersion_success [OF ok]
  have d: "v_document_id v = documentId"
    and dv: "document_versions ?s1 = document_versions s @ [v]"
    by blast+
  from up storage_upload_cases [of e2 path2 file2 ?s1]
  have st: "storage_upload e2 path2 file2 ?s1 = (None, ?s2)" by auto
  have own2: "is_owner ?s2 u2 documentId"
    using own by (simp add: is_owner_cong [OF uploadDocumentVersion_documents])
  have "insert_document_version (Some u2) ?row ?s2 = ((None, Some UniqueViolation), ?s2)"
    using own2 d same by (intro insert_document_version_conflict) (simp_all add: dv)
  with st u2 have "upload_and_insert e2 ?s1 documentId file2 notes2 u2 ?n path2
                     = (Returned (None, Some UniqueViolation), ?s2)"
    by (simp add: upload_and_insert_def)
  then show "fst (upload_and_insert e2 ?s1 documentId file2 notes2 u2 ?n path2)
               = Returned (None, Some UniqueViolation)"
    and "document_versions (snd (upload_and_insert e2 ?s1 documentId file2 notes2 u2 ?n path2))
               = document_versions ?s1"
    by simp_all
qed

theorem version_number_next_unique_conflict_witness:
  "v_version_number third_version =
     (if versions_of example_db ''d1'' = [] then 1
      else 1 + Max (set (version_numbers example_db ''d1''))) \<and>
   versions_unique
     (snd (uploadDocumentVersion (session (Some ''alice'')) example_db ''d1'' spec_pdf None)) \<and>
   fst (upload_and_insert second_session
          (snd (uploadDocumentVersion (session (Some ''alice'')) example_db ''d1'' spec_pdf None))
          ''d1'' spec_pdf None ''alice''
          (nextVersion (latest_versions second_session example_db ''d1'')) ''d1/t10.pdf'')
     = Returned (None, Some UniqueViolation)"
proof -
  let ?e = "session (Some ''alice'')"
  have one: "ledger_starts_at_one example_db" by code_simp
  have uniq: "versions_unique example_db" by code_simp
  have ok: "fst (uploadDocumentVersion ?e example_db ''d1'' spec_pdf None)
              = Returned (Some third_version, None)"
    by code_simp
  have u2: "auth_user second_session = Some ''alice''"
    by (simp add: second_session_def session_def)
  have own: "is_owner example_db ''alice'' ''d1''" by code_simp
  have same: "nextVersion (latest_versions second_session example_db ''d1'')
                = v_version_number third_version"
    by code_simp
  have up: "fst (storage_upload second_session ''d1/t10.pdf'' spec_pdf
                   (snd (uploadDocumentVersion ?e example_db ''d1'' spec_pdf None))) = None"
    by code_simp
  note inst = version_number_next_unique_conflict
         [where e = ?e and s = example_db and documentId = "''d1''" and ?file = spec_pdf
            and ?notes = None and v = third_version and ?e2.0 = second_session
            and ?u2.0 = "''alice''" and ?path2.0 = "''d1/t10.pdf''" and ?file2.0 = spec_pdf
            and ?notes2.0 = None]
  from inst [THEN conjunct1, THEN mp, OF conjI [OF disjI1 [OF one] ok]]
  have 1: "v_version_number third_version =
     (if versions_of example_db ''d1'' = [] then 1
      else 1 + Max (set (version_numbers example_db ''d1'')))"
    by simp
  from inst [THEN conjunct2, THEN conjunct1, THEN mp, OF uniq]
  have 2: "versions_unique (snd (uploadDocumentVersion ?e example_db ''d1'' spec_pdf None))" .
  from inst [THEN conjunct2, THEN conjunct2, THEN conjunct1, THEN mp,
            OF conjI [OF ok conjI [OF u2 conjI [OF own conjI [OF same up]]]]]
  have 3: "fst (upload_and_insert second_session
          (snd (uploadDocumentVersion ?e example_db ''d1'' spec_pdf None))
          ''d1'' spec_pdf None ''alice''
          (nextVersion (latest_versions second_session example_db ''d1'')) ''d1/t10.pdf'')
     = Returned (None, Some UniqueViolation)"
    by simp
  show ?thesis by (rule conjI [OF 1 conjI [OF 2 3]])
qed

subsection \<open>C3: who may upload a version\<close>

text \<open>
  C3, as the code has it. \<open>uploadDocumentVersion\<close> succeeds only for the owner of the
  document (so only for an identity that is the owner or holds an edit share: after
  the second migration a share of any permission is not enough). The attempt of an
  identity that is not the owner settles with an error and inserts no version row.
  The error is the row-level-security violation of the insert when the storage upload,
  which comes first, has succeeded; when the storage upload fails, it is the upload
  error.
\<close>

theorem upload_owner_only:
  "(fst (uploadDocumentVersion e s documentId file notes) = Returned (Some v, None) \<longrightarrow>
      (\<exists>u. auth_user e = Some u \<and> is_owner s u documentId)) \<and>
   (auth_user e = Some u \<and> \<not> is_owner s u documentId \<longrightarrow>
      (\<exists>err. fst (uploadDocumentVersion e s documentId file notes)
                = Returned (None, Some err)) \<and>
      document_versions (snd (uploadDocumentVersion e s documentId file notes))
        = document_versions s \<and>
      (fst (storage_upload e (filePath documentId (uuid_v4 e) (f_name file)) file s) = None \<longrightarrow>
         fst (uploadDocumentVersion e s documentId file notes)
           = Returned (None, Some RlsViolation)) \<and>
      (\<forall>uploadError.
         fst (storage_upload e (filePath documentId (uuid_v4 e) (f_name file)) file s)
           = Some uploadError \<longrightarrow>
         fst (uploadDocumentVersion e s documentId file notes)
           = Returned (None, Some uploadError)))"
proof (intro conjI impI allI)
  assume "fst (uploadDocumentVersion e s documentId file notes) = Returned (Some v, None)"
  from uploadDocumentVersion_success [OF this]
  show "\<exists>u. auth_user e = Some u \<and> is_owner s u documentId" by blast
next
  let ?p = "filePath documentId (uuid_v4 e) (f_name file)"
  let ?n = "nextVersion (latest_versions e s documentId)"
  let ?row = "\<lparr>v_id = gen_random_uuid e, v_document_id = documentId,
              v_version_number = ?n, v_file_path = ?p,
              v_file_name = f_name file, v_file_size = f_size file,
              v_mime_type = f_type file, v_uploaded_by = u,
              v_created_at = now e, v_notes = notes\<rparr>"
  assume other: "auth_user e = Some u \<and> \<not> is_owner s u documentId"
  then have u: "auth_user e = Some u" and no: "\<not> is_owner s u documentId" by simp_all
  have fail: "\<not> (\<exists>v. fst (uploadDocumentVersion e s documentId file notes)
                        = Returned (Some v, None))"
  proof
    assume "\<exists>v. fst (uploadDocumentVersion e s documentId file notes) = Returned (Some v, None)"
    then obtain v where "fst (uploadDocumentVersion e s documentId file notes)
                           = Returned (Some v, None)" by blast
    from uploadDocumentVersion_success [OF this] u no show False by auto
  qed
  from uploadDocumentVersion_failure [OF fail]
  show "document_versions (snd (uploadDocumentVersion e s documentId file notes))
          = document_versions s" .
  have rls: "fst (insert_document_version (Some u) ?row s1) = (None, Some RlsViolation)"
    if "documents s1 = documents s" for s1
    using no that
    by (simp add: insert_document_version_def document_versions_insert_check_iff
          is_owner_cong [OF that])
  show upok: "fst (uploadDocumentVersion e s documentId file notes)
                = Returned (None, Some RlsViolation)"
    if "fst (storage_upload e ?p file s) = None"
    using that storage_upload_cases [of e ?p "file" s] u
    by (auto simp: uploadDocumentVersion_fst upload_and_insert_fst rls)
  show uperr: "fst (uploadDocumentVersion e s documentId file notes)
                = Returned (None, Some uploadError)"
    if "fst (storage_upload e ?p file s) = Some uploadError" for uploadError
    using that storage_upload_cases [of e ?p "file" s] u
    by (auto simp: uploadDocumentVersion_fst upload_and_insert_fst)
  show "\<exists>err. fst (uploadDocumentVersion e s documentId file notes) = Returned (None, Some err)"
    using upok uperr by (cases "fst (storage_upload e ?p file s)") auto
qed

theorem upload_owner_only_witness:
  "fst (uploadDocumentVersion (session (Some ''bob'')) example_db ''d1'' spec_pdf None)
     = Returned (None, Some RlsViolation) \<and>
   document_versions
     (snd (uploadDocumentVersion (session (Some ''bob'')) example_db ''d1'' spec_pdf None))
     = document_versions example_db \<and>
   (\<exists>u. auth_user (session (Some ''alice'')) = Some u \<and> is_owner example_db u ''d1'')"
proof -
  let ?e = "session (Some ''bob'')"
  have other: "auth_user ?e = Some ''bob'' \<and> \<not> is_owner example_db ''bob'' ''d1''"
    by code_simp
  have up: "fst (storage_upload ?e (filePath ''d1'' (uuid_v4 ?e) (f_name spec_pdf)) spec_pdf
                   example_db) = None"
    by code_simp
  have ok: "fst (uploadDocumentVersion (session (Some ''alice'')) example_db ''d1'' spec_pdf None)
              = Returned (Some third_version, None)"
    by code_simp
  note inst = upload_owner_only
         [where e = ?e and s = example_db and documentId = "''d1''" and ?file = spec_pdf
            and ?notes = None and u = "''bob''", THEN conjunct2, THEN mp, OF other]
  from inst [THEN conjunct2, THEN conjunct2, THEN conjunct1, THEN mp, OF up]
  have 1: "fst (uploadDocumentVersion ?e example_db ''d1'' spec_pdf None)
     = Returned (None, Some RlsViolation)" .
  from inst [THEN conjunct2, THEN conjunct1]
  have 2: "document_versions (snd (uploadDocumentVersion ?e example_db ''d1'' spec_pdf None))
     = document_versions example_db" .
  from upload_owner_only
         [where e = "session (Some ''alice'')" and s = example_db and documentId = "''d1''"
            and ?file = spec_pdf and ?notes = None and v = third_version,
          THEN conjunct1, THEN mp, OF ok]
  have 3: "\<exists>u. auth_user (session (Some ''alice'')) = Some u \<and> is_owner example_db u ''d1''" .
  show ?thesis by (rule conjI [OF 1 conjI [OF 2 3]])
qed

text \<open>C3 as stated fails: carol neither owns \<open>d1\<close> nor holds a share on it; when
  her storage upload fails, her attempt ends with the upload error, not with the
  refusal of the insert.\<close>

theorem upload_owner_only_counterexample:
  "\<not> is_owner example_db ''carol'' ''d1'' \<and>
   filter (\<lambda>r. s_shared_with r = ''carol'') (document_shares example_db) = [] \<and>
   fst (uploadDocumentVersion (failing_upload (Some ''carol'')) example_db ''d1'' spec_pdf None)
     = Returned (None, Some (StorageError ''Payload too large''))"
  by code_simp

subsection \<open>C2: who may read a document and what hangs on it\<close>

lemma documents_select_iff:
  "documents_select (Some u) d \<longleftrightarrow> d_created_by d = u \<or> d_is_public d"
  by (auto simp: documents_select_def users_can_read_own_documents_def
        users_can_read_public_documents_def)

lemma key_unique:
  "distinct (map f xs) \<Longrightarrow> a \<in> set xs \<Longrightarrow> b \<in> set xs \<Longrightarrow> f b = f a \<Longrightarrow> b = a"
  by (auto simp: distinct_map dest: inj_onD)

lemma is_owner_iff:
  assumes "distinct (map d_id (documents s))" "D \<in> set (documents s)"
  shows "is_owner s u (d_id D) \<longleftrightarrow> d_created_by D = u"
  using assms key_unique [OF assms(1,2)] by (auto simp: is_owner_def)

lemma public_document_ids_doc:
  assumes "distinct (map d_id (documents s))" "D \<in> set (documents s)"
  shows "d_id D \<in> set (public_document_ids (Some u) s) \<longleftrightarrow> d_is_public D"
  using assms key_unique [OF assms(1,2)] by (auto simp: public_document_ids_iff)

lemma filter_const:
  "(\<And>x. x \<in> set xs \<Longrightarrow> A x \<Longrightarrow> B x = c) \<Longrightarrow>
   filter (\<lambda>x. A x \<and> B x) xs = (if c then filter A xs else [])"
  by (induction xs) auto

text \<open>
  C2, as the code has it. For an authenticated identity \<open>u\<close> and a document \<open>D\<close> of
  the table: \<open>getDocument\<close> gives \<open>D\<close> with all its versions if \<open>u\<close> created \<open>D\<close> or
  \<open>D\<close> is public, and fails with the error of \<open>.single()\<close> otherwise; \<open>getDocuments\<close>
  lists \<open>D\<close> under the same condition; the versions and the comments of \<open>D\<close> are
  read in full under that condition and not at all otherwise; an approval of \<open>D\<close> is
  read if \<open>u\<close> created \<open>D\<close> or is its assignee; the activity entries of \<open>D\<close> (the
  latest 50) are read only by the creator of \<open>D\<close>. A share gives no read access.
\<close>

theorem read_access_owner_or_public:
  assumes "auth_user e = Some u" "distinct (map d_id (documents s))" "D \<in> set (documents s)"
  shows
   "getDocument e s (d_id D) =
      (if d_created_by D = u \<or> d_is_public D
       then Returned (Some (D, versions_of s (d_id D)), None)
       else Returned (None, Some NoRows)) \<and>
    (\<exists>ds. getDocuments e s = Returned (Some ds, None) \<and>
          (D \<in> fst ` set ds \<longleftrightarrow> d_created_by D = u \<or> d_is_public D)) \<and>
    getDocumentVersions e s (d_id D) =
      Returned (Some (if d_created_by D = u \<or> d_is_public D
                      then rev (sort_key v_version_number (versions_of s (d_id D)))
                      else []), None) \<and>
    getComments e s (d_id D) None =
      Returned (Some (if d_created_by D = u \<or> d_is_public D
                      then sort_key c_created_at
                             (filter (\<lambda>c. c_document_id c = d_id D) (comments s))
                      else []), None) \<and>
    getApprovals e s (d_id D) =
      Returned (Some (rev (sort_key a_created_at
                 (filter (\<lambda>a. a_document_id a = d_id D
                              \<and> (d_created_by D = u \<or> a_assigned_to a = u))
                    (approvals s)))), None) \<and>
    getActivityLog e s (d_id D) =
      Returned (Some (if d_created_by D = u
                      then take 50 (rev (sort_key l_created_at
                             (filter (\<lambda>l. l_document_id l = d_id D) (activity_logs s))))
                      else []), None)"
proof -
  let ?r = "d_created_by D = u \<or> d_is_public D"
  note own = is_owner_iff [OF assms(2,3)] and pub = public_document_ids_doc [OF assms(2,3)]
  have vsel: "document_versions_select (Some u) s v = ?r" if "v_document_id v = d_id D" for v
    using that by (simp add: document_versions_select_def own_document_ids_iff own pub)
  have vs: "filter (\<lambda>v. v_document_id v = d_id D \<and> document_versions_select (Some u) s v)
              (document_versions s) = (if ?r then versions_of s (d_id D) else [])"
    unfolding versions_of_def by (rule filter_const) (rule vsel)
  have docs: "filter (\<lambda>d. d_id d = d_id D \<and> documents_select (Some u) d) (documents s)
                = (if ?r then [D] else [])"
    using filter_key_distinct [OF assms(2,3), of "documents_select (Some u)"]
    by (simp add: documents_select_iff)
  have 1: "getDocument e s (d_id D) =
      (if ?r then Returned (Some (D, versions_of s (d_id D)), None)
       else Returned (None, Some NoRows))"
    using docs vs by (simp add: getDocument_def assms(1) embedded_versions_def)
  have 2: "\<exists>ds. getDocuments e s = Returned (Some ds, None) \<and> (D \<in> fst ` set ds \<longleftrightarrow> ?r)"
    using assms(3) by (auto simp: getDocuments_def assms(1) image_iff documents_select_iff)
  have 3: "getDocumentVersions e s (d_id D) =
      Returned (Some (if ?r then rev (sort_key v_version_number (versions_of s (d_id D)))
                      else []), None)"
    using vs by (simp add: getDocumentVersions_def assms(1))
  have csel: "comments_select (Some u) s c = ?r" if "c_document_id c = d_id D" for c
    using that by (simp add: comments_select_def own_document_ids_iff own pub)
  have cs: "filter (\<lambda>c. c_document_id c = d_id D \<and> comments_select (Some u) s c) (comments s)
              = (if ?r then filter (\<lambda>c. c_document_id c = d_id D) (comments s) else [])"
    by (rule filter_const) (rule csel)
  have 4: "getComments e s (d_id D) None =
      Returned (Some (if ?r then sort_key c_created_at
                             (filter (\<lambda>c. c_document_id c = d_id D) (comments s))
                      else []), None)"
    using cs by (simp add: getComments_def assms(1))
  have "filter (\<lambda>a. a_document_id a = d_id D \<and> approvals_select (Some u) s a) (approvals s)
          = filter (\<lambda>a. a_document_id a = d_id D \<and> (d_created_by D = u \<or> a_assigned_to a = u))
              (approvals s)"
    by (rule filter_cong) (auto simp: approvals_select_def own_document_ids_iff own)
  then have 5: "getApprovals e s (d_id D) =
      Returned (Some (rev (sort_key a_created_at
                 (filter (\<lambda>a. a_document_id a = d_id D
                              \<and> (d_created_by D = u \<or> a_assigned_to a = u))
                    (approvals s)))), None)"
    by (simp add: getApprovals_def assms(1))
  have lsel: "activity_logs_select (Some u) s l = (d_created_by D = u)"
    if "l_document_id l = d_id D" for l
    using that by (simp add: activity_logs_select_def own_document_ids_iff own)
  have ls: "filter (\<lambda>l. l_document_id l = d_id D \<and> activity_logs_select (Some u) s l)
              (activity_logs s)
              = (if d_created_by D = u
                 then filter (\<lambda>l. l_document_id l = d_id D) (activity_logs s) else [])"
    by (rule filter_const) (rule lsel)
  have 6: "getActivityLog e s (d_id D) =
      Returned (Some (if d_created_by D = u
                      then take 50 (rev (sort_key l_created_at
                             (filter (\<lambda>l. l_document_id l = d_id D) (activity_logs s))))
                      else []), None)"
    using ls by (simp add: getActivityLog_def assms(1))
  from 1 2 3 4 5 6 show ?thesis by blast
qed

theorem read_access_owner_or_public_witness:
  "getDocument (session (Some ''alice'')) example_db (d_id spec_document) =
     (if d_created_by spec_document = ''alice'' \<or> d_is_public spec_document
      then Returned (Some (spec_document, versions_of example_db (d_id spec_document)), None)
      else Returned (None, Some NoRows))"
proof -
  have a: "auth_user (session (Some ''alice'')) = Some ''alice''" by (simp add: session_def)
  have d: "distinct (map d_id (documents example_db))" by (simp add: example_db_def)
  have m: "spec_document \<in> set (documents example_db)" by (simp add: example_db_def)
  show ?thesis by (rule read_access_owner_or_public [OF a d m, THEN conjunct1])
qed

text \<open>C2 as stated fails: bob holds a share on \<open>d1\<close>, and cannot read the document
  or its versions.\<close>

theorem read_access_owner_or_public_counterexample:
  "map (\<lambda>r. (s_document_id r, s_shared_with r)) (document_shares example_db)
     = [(''d1'', ''bob'')] \<and>
   getDocument (session (Some ''bob'')) example_db ''d1'' = Returned (None, Some NoRows) \<and>
   getDocumentVersions (session (Some ''bob'')) example_db ''d1'' = Returned (Some [], None)"
  by code_simp

subsection \<open>C5: sharing\<close>

lemma replace_by_id_ids:
  "s_id new = i \<Longrightarrow> map s_id (map (\<lambda>r. if s_id r = i then new else r) xs) = map s_id xs"
  by (induction xs) auto

lemma replace_by_id_distinct:
  assumes "distinct (map s_id xs)" "distinct (map k xs)"
    "k new \<notin> set (map k (filter (\<lambda>r. s_id r \<noteq> i) xs))"
  shows "distinct (map k (map (\<lambda>r. if s_id r = i then new else r) xs))"
  using assms
proof (induction xs)
  case Nil
  then show ?case by simp
next
  case (Cons x xs)
  show ?case
  proof (cases "s_id x = i")
    case True
    with Cons.prems(1) have "\<forall>r \<in> set xs. s_id r \<noteq> i" by (auto simp: image_iff)
    then have same: "map (\<lambda>r. if s_id r = i then new else r) xs = xs"
      and all: "filter (\<lambda>r. s_id r \<noteq> i) xs = xs"
      by (simp_all add: map_idI)
    with True Cons.prems show ?thesis by simp
  next
    case False
    with Cons.prems have IH: "distinct (map k (map (\<lambda>r. if s_id r = i then new else r) xs))"
      by (intro Cons.IH) auto
    from False Cons.prems have "k x \<noteq> k new" "k x \<notin> k ` set xs" by auto
    then have "k x \<notin> set (map k (map (\<lambda>r. if s_id r = i then new else r) xs))"
      by (auto simp: image_iff)
    with False IH show ?thesis by simp
  qed
qed

lemma upsert_document_share_first:
  assumes "s_shared_by row \<in> set (users s)" "s_shared_with row \<in> set (users s)"
    "s_document_id row \<in> set (map d_id (documents s))"
    "s_id row \<notin> set (map s_id (document_shares s))"
    "(s_document_id row, s_shared_with row)
       \<notin> set (map (\<lambda>r. (s_document_id r, s_shared_with r)) (document_shares s))"
  shows "upsert_document_share (Some (s_shared_by row)) row s
           = ((Some row, None), s\<lparr>document_shares := document_shares s @ [row]\<rparr>)"
proof -
  have "\<forall>r \<in> set (document_shares s). s_id r \<noteq> s_id row"
  proof
    fix r assume "r \<in> set (document_shares s)"
    then have "s_id r \<in> set (map s_id (document_shares s))" by simp
    with assms(4) show "s_id r \<noteq> s_id row" by auto
  qed
  then have "filter (\<lambda>r. s_id r = s_id row) (document_shares s) = []"
    by (simp add: filter_empty_conv)
  with assms show ?thesis
    by (simp add: upsert_document_share_def document_shares_manage_def
          document_shares_select_def)
qed

lemma upsert_document_share_unique:
  assumes "shares_unique s"
  shows "shares_unique (snd (upsert_document_share u row s))"
proof (cases "filter (\<lambda>r. s_id r = s_id row) (document_shares s)")
  case Nil
  then have "s_id row \<notin> set (map s_id (document_shares s))"
    by (auto simp: filter_empty_conv)
  with Nil assms show ?thesis
    by (simp add: upsert_document_share_def shares_unique_def)
next
  case (Cons old rest)
  let ?new = "old\<lparr>s_document_id := s_document_id row, s_shared_with := s_shared_with row,
                   s_permission := s_permission row, s_shared_by := s_shared_by row\<rparr>"
  from Cons have "old \<in> set (filter (\<lambda>r. s_id r = s_id row) (document_shares s))" by simp
  then have id: "s_id ?new = s_id row" by simp
  let ?xs' = "map (\<lambda>r. if s_id r = s_id row then ?new else r) (document_shares s)"
  have ids: "distinct (map s_id ?xs')"
    unfolding replace_by_id_ids [OF id] using assms by (simp add: shares_unique_def)
  have keys: "distinct (map (\<lambda>r. (s_document_id r, s_shared_with r)) ?xs')"
    if "(s_document_id ?new, s_shared_with ?new)
          \<notin> set (map (\<lambda>r. (s_document_id r, s_shared_with r))
                    (filter (\<lambda>r. s_id r \<noteq> s_id row) (document_shares s)))"
    using assms that
    by (intro replace_by_id_distinct) (simp_all add: shares_unique_def)
  have "shares_unique (s\<lparr>document_shares := ?xs'\<rparr>)"
    if "(s_document_id ?new, s_shared_with ?new)
          \<notin> set (map (\<lambda>r. (s_document_id r, s_shared_with r))
                    (filter (\<lambda>r. s_id r \<noteq> s_id row) (document_shares s)))"
    unfolding shares_unique_def using ids keys [OF that] by simp
  with Cons assms show ?thesis
    by (simp add: upsert_document_share_def Let_def)
qed

lemma upsert_document_share_Some:
  assumes "fst (upsert_document_share u row s) = (Some r, None)"
  shows "u = Some (s_shared_by row) \<and> s_document_id r = s_document_id row \<and>
         s_shared_with r = s_shared_with row \<and> s_permission r = s_permission row \<and>
         s_shared_by r = s_shared_by row \<and>
         r \<in> set (document_shares (snd (upsert_document_share u row s)))"
proof (cases "filter (\<lambda>r. s_id r = s_id row) (document_shares s)")
  case Nil
  with assms show ?thesis
    by (auto simp: upsert_document_share_def document_shares_manage_def split: if_splits)
next
  case (Cons old rest)
  then have "old \<in> set (filter (\<lambda>r. s_id r = s_id row) (document_shares s))" by simp
  then have old: "old \<in> set (document_shares s)" "s_id old = s_id row" by simp_all
  with Cons assms show ?thesis
    by (auto simp: upsert_document_share_def document_shares_manage_def Let_def image_iff
             split: if_splits intro!: bexI [of _ old])
qed

lemma shareDocument_shares:
  "document_shares (snd (shareDocument e s documentId sharedWith permission)) =
     (case auth_user e of
        None \<Rightarrow> document_shares s
      | Some user_id \<Rightarrow>
          document_shares (snd (upsert_document_share (auth_user e)
            \<lparr>s_id = gen_random_uuid e, s_document_id = documentId,
             s_shared_with = sharedWith, s_permission = permission,
             s_shared_by = user_id, s_created_at = now e\<rparr> s)))"
  by (auto simp: shareDocument_def then_return_logActivity logActivity_other_fields
        split: option.split prod.split)

lemma shares_unique_cong:
  "document_shares s' = document_shares s \<Longrightarrow> shares_unique s' = shares_unique s"
  by (simp add: shares_unique_def)

text \<open>
  What does hold of \<open>shareDocument\<close>. (i) The first share of an existing document with
  an existing identity, by an authenticated caller who is a user, the row getting a new
  id, succeeds with the permission given. (ii) If ids and pairs
  \<open>(document_id, shared_with)\<close> are unique in the table before a call, they are after
  it. (iii) Whenever a call succeeds, the row it returns is shared by the caller, has
  the permission given, and is the one row of the table for that document and identity.
\<close>

lemma shareDocument_first_and_unique:
  "(auth_user e = Some u \<and> u \<in> set (users s) \<and> sharedWith \<in> set (users s) \<and>
    documentId \<in> set (map d_id (documents s)) \<and>
    gen_random_uuid e \<notin> set (map s_id (document_shares s)) \<and>
    (documentId, sharedWith)
       \<notin> set (map (\<lambda>r. (s_document_id r, s_shared_with r)) (document_shares s)) \<longrightarrow>
      fst (shareDocument e s documentId sharedWith permission)
        = Returned (Some \<lparr>s_id = gen_random_uuid e, s_document_id = documentId,
                          s_shared_with = sharedWith, s_permission = permission,
                          s_shared_by = u, s_created_at = now e\<rparr>, None)) \<and>
   (shares_unique s \<longrightarrow>
      shares_unique (snd (shareDocument e s documentId sharedWith permission))) \<and>
   (shares_unique s \<and>
    fst (shareDocument e s documentId sharedWith permission) = Returned (Some r, None) \<longrightarrow>
      auth_user e = Some (s_shared_by r) \<and> s_permission r = permission \<and>
      filter (\<lambda>x. s_document_id x = documentId \<and> s_shared_with x = sharedWith)
        (document_shares (snd (shareDocument e s documentId sharedWith permission))) = [r])"
proof (intro conjI impI)
  let ?row = "\<lparr>s_id = gen_random_uuid e, s_document_id = documentId,
               s_shared_with = sharedWith, s_permission = permission,
               s_shared_by = u, s_created_at = now e\<rparr>"
  assume "auth_user e = Some u \<and> u \<in> set (users s) \<and> sharedWith \<in> set (users s) \<and>
    documentId \<in> set (map d_id (documents s)) \<and>
    gen_random_uuid e \<notin> set (map s_id (document_shares s)) \<and>
    (documentId, sharedWith)
       \<notin> set (map (\<lambda>r. (s_document_id r, s_shared_with r)) (document_shares s))"
  then have u: "auth_user e = Some u"
    and "upsert_document_share (Some (s_shared_by ?row)) ?row s
           = ((Some ?row, None), s\<lparr>document_shares := document_shares s @ [?row]\<rparr>)"
    by (simp, intro upsert_document_share_first) simp_all
  then show "fst (shareDocument e s documentId sharedWith permission)
               = Returned (Some ?row, None)"
    by (simp add: shareDocument_fst)
next
  assume uq: "shares_unique s"
  show "shares_unique (snd (shareDocument e s documentId sharedWith permission))"
  proof (cases "auth_user e")
    case None
    then show ?thesis using uq by (simp add: shareDocument_def)
  next
    case (Some user_id)
    let ?row = "\<lparr>s_id = gen_random_uuid e, s_document_id = documentId,
               s_shared_with = sharedWith, s_permission = permission,
               s_shared_by = user_id, s_created_at = now e\<rparr>"
    have "document_shares (snd (shareDocument e s documentId sharedWith permission))
            = document_shares (snd (upsert_document_share (auth_user e) ?row s))"
      using Some by (simp add: shareDocument_shares)
    from shares_unique_cong [OF this] upsert_document_share_unique [OF uq]
    show ?thesis by simp
  qed
next
  let ?s' = "snd (shareDocument e s documentId sharedWith permission)"
  assume "shares_unique s \<and>
    fst (shareDocument e s documentId sharedWith permission) = Returned (Some r, None)"
  then have uq: "shares_unique s"
    and ok: "fst (shareDocument e s documentId sharedWith permission) = Returned (Some r, None)"
    by simp_all
  from ok obtain user_id where u: "auth_user e = Some user_id"
    by (cases "auth_user e") (simp_all add: shareDocument_fst)
  let ?row = "\<lparr>s_id = gen_random_uuid e, s_document_id = documentId,
               s_shared_with = sharedWith, s_permission = permission,
               s_shared_by = user_id, s_created_at = now e\<rparr>"
  from ok u have "fst (upsert_document_share (auth_user e) ?row s) = (Some r, None)"
    by (simp add: shareDocument_fst)
  from upsert_document_share_Some [OF this] u
  have r: "s_document_id r = documentId" "s_shared_with r = sharedWith"
    "s_permission r = permission" "s_shared_by r = user_id"
    and mem: "r \<in> set (document_shares ?s')"
    by (simp_all add: shareDocument_shares)
  from r u show "auth_user e = Some (s_shared_by r)" by simp
  from r show "s_permission r = permission" by simp
  have "shares_unique ?s'"
  proof -
    have "document_shares ?s'
            = document_shares (snd (upsert_document_share (auth_user e) ?row s))"
      using u by (simp add: shareDocument_shares)
    from shares_unique_cong [OF this] upsert_document_share_unique [OF uq]
    show ?thesis by simp
  qed
  then have "distinct (map (\<lambda>x. (s_document_id x, s_shared_with x)) (document_shares ?s'))"
    by (simp add: shares_unique_def)
  from filter_key_distinct [OF this mem, of "\<lambda>x. True"] r
  show "filter (\<lambda>x. s_document_id x = documentId \<and> s_shared_with x = sharedWith)
          (document_shares ?s') = [r]"
    by simp
qed

text \<open>
  C5, which the code sets out to do and misses. Nobody has a share on \<open>d1\<close>. Alice, its
  owner, shares it with bob for editing, and then, from her second session, for
  viewing. The first call succeeds. The second does not overwrite the permission: the
  row of an \<open>.upsert(...)\<close> without \<open>onConflict\<close> gets a new id, the conflict target,
  the primary key, does not meet the stored row, and
  \<open>UNIQUE(document_id, shared_with)\<close> refuses the insert with 23505; the one row for
  \<open>d1\<close> and bob still says \<open>edit\<close>. Nor is sharing the owner's alone: carol, who
  did not create \<open>d1\<close>, shares it with herself for editing, since the policy "Document
  owners can manage shares" asks only that \<open>shared_by\<close> is the caller.
\<close>

theorem share_again_is_refused:
  "fst (shareDocument (session (Some ''alice'')) unshared_db ''d1'' ''bob'' Edit)
     = Returned (Some \<lparr>s_id = ''r9'', s_document_id = ''d1'', s_shared_with = ''bob'',
                       s_permission = Edit, s_shared_by = ''alice'', s_created_at = 9\<rparr>,
                 None) \<and>
   fst (shareDocument second_session
          (snd (shareDocument (session (Some ''alice'')) unshared_db ''d1'' ''bob'' Edit))
          ''d1'' ''bob'' View)
     = Returned (None, Some UniqueViolation) \<and>
   map (\<lambda>r. (s_document_id r, s_shared_with r, s_permission r))
     (document_shares
        (snd (shareDocument second_session
                (snd (shareDocument (session (Some ''alice'')) unshared_db ''d1'' ''bob'' Edit))
                ''d1'' ''bob'' View)))
     = [(''d1'', ''bob'', Edit)] \<and>
   map d_created_by (documents unshared_db) = [''alice''] \<and>
   fst (shareDocument (session (Some ''carol'')) unshared_db ''d1'' ''carol'' Edit)
     = Returned (Some \<lparr>s_id = ''r9'', s_document_id = ''d1'', s_shared_with = ''carol'',
                       s_permission = Edit, s_shared_by = ''carol'', s_created_at = 9\<rparr>,
                 None)"
  by code_simp

end
